theory Spec2Isabelle
  imports Main "HOL-Library.Countable"
begin

section \<open>The Community model of socialcap-lib\<close>

text \<open>
  A shallow embedding of \<^verbatim>\<open>src/contracts/models/communities-alt-version.ts\<close>:
  the class \<^verbatim>\<open>_Community_\<close> (its field initialisers, constructor, \<^verbatim>\<open>fromJSON\<close>,
  \<^verbatim>\<open>toJSON\<close>, \<^verbatim>\<open>hash\<close>), the factory \<^verbatim>\<open>Community\<close> and the four coercion helpers
  \<^verbatim>\<open>asCircuitString\<close>, \<^verbatim>\<open>asPublicKey\<close>, \<^verbatim>\<open>asField\<close>, \<^verbatim>\<open>asArray\<close>.

  A JavaScript exception is a value of type \<open>error\<close>; a computation that may throw
  returns \<open>error + 'a\<close>, with \<open>Inl\<close> for the exception. A JavaScript string is a
  \<open>string\<close>, one element per code unit.
\<close>

subsection \<open>Exceptions\<close>

datatype error =
  TypeError          \<comment> \<open>reading a property of \<^verbatim>\<open>undefined\<close>\<close>
| Thrown string      \<comment> \<open>an exception raised inside an imported primitive\<close>

definition and_then :: "error + 'a \<Rightarrow> ('a \<Rightarrow> error + 'b) \<Rightarrow> error + 'b" where
  "and_then m f = (case m of Inl e \<Rightarrow> Inl e | Inr x \<Rightarrow> f x)"

subsection \<open>The imported primitives\<close>

text \<open>
  The file imports \<^verbatim>\<open>Field\<close>, \<^verbatim>\<open>CircuitString\<close>, \<^verbatim>\<open>PublicKey\<close>, \<^verbatim>\<open>Poseidon\<close> from
  snarkyjs and \<^verbatim>\<open>UTCDateTime\<close> from \<^verbatim>\<open>../helpers/datetime.js\<close>. None of them is
  defined in the file, so the model takes them as a parameter: a record of the operations
  the file calls, over a type \<open>'f\<close> of field elements, \<open>'pk\<close> of public keys and
  \<open>'cs\<close> of circuit strings. Each operation is a function of its arguments; the
  parsers may throw, the printers do not.
\<close>

record ('f, 'pk, 'cs) snarky =
  Field_str :: "string \<Rightarrow> error + 'f"                  \<comment> \<open>\<^verbatim>\<open>Field(s)\<close> for a string \<^verbatim>\<open>s\<close>\<close>
  Field_0 :: "'f"                                       \<comment> \<open>\<^verbatim>\<open>Field(0)\<close>\<close>
  Field_toString :: "'f \<Rightarrow> string"                     \<comment> \<open>\<^verbatim>\<open>f.toString()\<close>\<close>
  Field_toFields :: "'f \<Rightarrow> 'f list"                    \<comment> \<open>\<^verbatim>\<open>f.toFields()\<close>\<close>
  PublicKey_empty :: "'pk"                              \<comment> \<open>\<^verbatim>\<open>PublicKey.empty()\<close>\<close>
  PublicKey_fromBase58 :: "string \<Rightarrow> error + 'pk"      \<comment> \<open>\<^verbatim>\<open>PublicKey.fromBase58(s)\<close>\<close>
  PublicKey_toBase58 :: "'pk \<Rightarrow> string"                \<comment> \<open>\<^verbatim>\<open>k.toBase58()\<close>\<close>
  PublicKey_toFields :: "'pk \<Rightarrow> 'f list"               \<comment> \<open>\<^verbatim>\<open>k.toFields()\<close>\<close>
  CircuitString_maxLength :: "nat"                      \<comment> \<open>\<^verbatim>\<open>CircuitString.maxLength\<close>\<close>
  CircuitString_fromString :: "string \<Rightarrow> error + 'cs"  \<comment> \<open>\<^verbatim>\<open>CircuitString.fromString(s)\<close>\<close>
  CircuitString_toString :: "'cs \<Rightarrow> string"            \<comment> \<open>\<^verbatim>\<open>c.toString()\<close>\<close>
  CircuitString_toFields :: "'cs \<Rightarrow> 'f list"           \<comment> \<open>\<^verbatim>\<open>c.toFields()\<close>\<close>
  Poseidon_hash :: "'f list \<Rightarrow> 'f"                     \<comment> \<open>\<^verbatim>\<open>Poseidon.hash(fields)\<close>\<close>
  UTCDateTime_toString :: "'f \<Rightarrow> string"               \<comment> \<open>\<^verbatim>\<open>UTCDateTime.fromField(f).toString()\<close>\<close>

subsection \<open>JavaScript string operations used by the helpers\<close>

text \<open>\<^verbatim>\<open>a || b\<close> on a string \<^verbatim>\<open>a\<close>: the empty string is falsy.\<close>

definition or_string :: "string \<Rightarrow> string \<Rightarrow> string" where
  "or_string a b = (if a = [] then b else a)"

text \<open>\<^verbatim>\<open>a || b\<close> on an object or \<^verbatim>\<open>undefined\<close>: an object is truthy.\<close>

definition or_object :: "'a option \<Rightarrow> 'a \<Rightarrow> 'a" where
  "or_object a b = (case a of Some x \<Rightarrow> x | None \<Rightarrow> b)"

text \<open>
  \<^verbatim>\<open>s.substring(start, end)\<close>: both indices are clamped to \<open>0 .. s.length\<close> and
  swapped when \<open>start > end\<close>.
\<close>

definition substring :: "string \<Rightarrow> int \<Rightarrow> int \<Rightarrow> string" where
  "substring s start end' =
     (let n = int (length s);
          a = max 0 (min start n);
          b = max 0 (min end' n);
          lo = min a b;
          hi = max a b
      in take (nat (hi - lo)) (drop (nat lo) s))"

subsection \<open>The data\<close>

text \<open>
  The JSON object \<^verbatim>\<open>fromJSON\<close> reads and \<^verbatim>\<open>toJSON\<close> builds, with the properties of the
  parameter type of \<^verbatim>\<open>fromJSON\<close> in its order: \<^verbatim>\<open>uid\<close> is required, every other
  property may be absent (\<open>None\<close> is \<^verbatim>\<open>undefined\<close>).
\<close>

record community_json =
  j_uid :: "string"
  j_fullName :: "string option"
  j_description :: "string option"
  j_accountId :: "string option"
  j_state :: "string option"
  j_createdUTC :: "string option"
  j_approvedUTC :: "string option"
  j_updatedUTC :: "string option"
  j_validators :: "string list option"
  j_auditors :: "string list option"
  j_admins :: "string list option"
  j_plans :: "string list option"

text \<open>
  An instance of \<^verbatim>\<open>_Community_\<close>. The class declares an initialiser for every field but
  \<^verbatim>\<open>uid\<close>, which comes from \<^verbatim>\<open>Struct({ uid: Field })\<close> and is \<^verbatim>\<open>undefined\<close> (\<open>None\<close>)
  until \<^verbatim>\<open>fromJSON\<close> assigns it. The record is extensible: any further property of the
  object lives in its \<open>more\<close> part.
\<close>

record ('f, 'pk, 'cs) community =
  uid :: "'f option"
  accountId :: "'pk"
  fullName :: "'cs"
  description :: "'cs"
  state :: "'cs"
  createdUTC :: "'f"
  updatedUTC :: "'f"
  approvedUTC :: "'f"
  admins :: "'f list"
  validators :: "'f list"
  auditors :: "'f list"
  plans :: "'f list"

subsection \<open>The coercion helpers (lines 126 to 149)\<close>

definition asCircuitString ::
  "('f, 'pk, 'cs) snarky \<Rightarrow> string option \<Rightarrow> 'cs \<Rightarrow> error + 'cs" where
  "asCircuitString L s defaulted =
     (case s of
        None \<Rightarrow> Inr defaulted
      | Some t \<Rightarrow>
          CircuitString_fromString L
            (substring (or_string t []) 0 (int (CircuitString_maxLength L) - 1)))"

text \<open>
  \<^verbatim>\<open>defaulted\<close> is an optional parameter of each helper; \<^verbatim>\<open>asPublicKey\<close> is the only
  one that guards it with \<^verbatim>\<open>||\<close>, so there it is an \<open>option\<close>. The class always passes
  the current value of the field.
\<close>

definition asPublicKey ::
  "('f, 'pk, 'cs) snarky \<Rightarrow> string option \<Rightarrow> 'pk option \<Rightarrow> error + 'pk" where
  "asPublicKey L s defaulted =
     (case s of
        None \<Rightarrow> Inr (or_object defaulted (PublicKey_empty L))
      | Some t \<Rightarrow> PublicKey_fromBase58 L t)"

definition asField ::
  "('f, 'pk, 'cs) snarky \<Rightarrow> string option \<Rightarrow> 'f \<Rightarrow> error + 'f" where
  "asField L s defaulted =
     (case s of None \<Rightarrow> Inr defaulted | Some t \<Rightarrow> Field_str L t)"

text \<open>\<^verbatim>\<open>s.map(t => Field(t))\<close>: left to right, the first exception ends the loop.\<close>

fun map_Field :: "('f, 'pk, 'cs) snarky \<Rightarrow> string list \<Rightarrow> error + 'f list" where
  "map_Field L [] = Inr []"
| "map_Field L (t # ts) =
     and_then (Field_str L t) (\<lambda>f.
     and_then (map_Field L ts) (\<lambda>fs. Inr (f # fs)))"

definition asArray ::
  "('f, 'pk, 'cs) snarky \<Rightarrow> string list option \<Rightarrow> 'f list \<Rightarrow> error + 'f list" where
  "asArray L s defaulted =
     (case s of None \<Rightarrow> Inr defaulted | Some ts \<Rightarrow> map_Field L ts)"

subsection \<open>The class (lines 40 to 124)\<close>

text \<open>
  \<^verbatim>\<open>fromJSON\<close> mutates \<^verbatim>\<open>this\<close> one assignment after the other and returns it; the
  model threads the instance through the same twelve assignments in the same order. Its
  argument is \<open>None\<close> when the caller passes \<^verbatim>\<open>undefined\<close>, as the constructor does:
  \<^verbatim>\<open>json.uid\<close> then throws a TypeError. When an assignment throws, the exception is the
  outcome and nothing is returned; what the earlier assignments wrote to the receiver is
  not part of the outcome.
\<close>

definition fromJSON ::
  "('f, 'pk, 'cs) snarky \<Rightarrow> ('f, 'pk, 'cs, 'z) community_scheme \<Rightarrow> community_json option
     \<Rightarrow> error + ('f, 'pk, 'cs, 'z) community_scheme" where
  "fromJSON L this0 json' =
     (case json' of
        None \<Rightarrow> Inl TypeError
      | Some json \<Rightarrow>
          and_then (Field_str L (j_uid json)) (\<lambda>v.
            let this1 = this0\<lparr>uid := Some v\<rparr> in
          and_then (asPublicKey L (j_accountId json) (Some (accountId this1))) (\<lambda>v.
            let this2 = this1\<lparr>accountId := v\<rparr> in
          and_then (asCircuitString L (j_fullName json) (fullName this2)) (\<lambda>v.
            let this3 = this2\<lparr>fullName := v\<rparr> in
          and_then (asCircuitString L (j_description json) (description this3)) (\<lambda>v.
            let this4 = this3\<lparr>description := v\<rparr> in
          and_then (asCircuitString L (j_state json) (state this4)) (\<lambda>v.
            let this5 = this4\<lparr>state := v\<rparr> in
          and_then (asField L (j_approvedUTC json) (approvedUTC this5)) (\<lambda>v.
            let this6 = this5\<lparr>approvedUTC := v\<rparr> in
          and_then (asField L (j_createdUTC json) (createdUTC this6)) (\<lambda>v.
            let this7 = this6\<lparr>createdUTC := v\<rparr> in
          and_then (asField L (j_updatedUTC json) (createdUTC this7)) (\<lambda>v.
            let this8 = this7\<lparr>createdUTC := v\<rparr> in
          and_then (asArray L (j_admins json) (admins this8)) (\<lambda>v.
            let this9 = this8\<lparr>admins := v\<rparr> in
          and_then (asArray L (j_validators json) (validators this9)) (\<lambda>v.
            let this10 = this9\<lparr>validators := v\<rparr> in
          and_then (asArray L (j_auditors json) (auditors this10)) (\<lambda>v.
            let this11 = this10\<lparr>auditors := v\<rparr> in
          and_then (asArray L (j_plans json) (plans this11)) (\<lambda>v.
            let this12 = this11\<lparr>plans := v\<rparr> in
          Inr this12)))))))))))))"

text \<open>
  The field initialisers of lines 41 to 51, run by \<^verbatim>\<open>new\<close> after \<^verbatim>\<open>super(json)\<close>
  returns. \<^verbatim>\<open>CircuitString.fromString\<close> is a parser and may throw.
\<close>

definition initialisers :: "('f, 'pk, 'cs) snarky \<Rightarrow> error + ('f, 'pk, 'cs) community" where
  "initialisers L =
     and_then (CircuitString_fromString L ''?'') (\<lambda>n.
     and_then (CircuitString_fromString L []) (\<lambda>d.
     and_then (CircuitString_fromString L ''INITIAL'') (\<lambda>s.
     Inr \<lparr>uid = None,
          accountId = PublicKey_empty L,
          fullName = n,
          description = d,
          state = s,
          createdUTC = Field_0 L,
          updatedUTC = Field_0 L,
          approvedUTC = Field_0 L,
          admins = [],
          validators = [],
          auditors = [],
          plans = []\<rparr>)))"

text \<open>
  \<^verbatim>\<open>constructor(json?: any) { super(json); this.fromJSON(json); }\<close>. The base constructor
  of \<^verbatim>\<open>Struct\<close> copies the properties of its argument onto the object and copies nothing
  for \<^verbatim>\<open>undefined\<close>; the initialisers then overwrite every declared field, and the first
  assignment of \<^verbatim>\<open>fromJSON\<close> overwrites \<^verbatim>\<open>uid\<close> or throws, so no field of the record keeps
  a copied value.
\<close>

definition constructor ::
  "('f, 'pk, 'cs) snarky \<Rightarrow> community_json option \<Rightarrow> error + ('f, 'pk, 'cs) community" where
  "constructor L json = and_then (initialisers L) (\<lambda>this. fromJSON L this json)"

text \<open>Line 37: \<^verbatim>\<open>const Community = (params: any) => new _Community_().fromJSON(params)\<close>.\<close>

definition Community ::
  "('f, 'pk, 'cs) snarky \<Rightarrow> community_json option \<Rightarrow> error + ('f, 'pk, 'cs) community" where
  "Community L params = and_then (constructor L None) (\<lambda>this. fromJSON L this params)"

text \<open>
  \<^verbatim>\<open>toJSON\<close>. \<^verbatim>\<open>this.uid.toString()\<close> throws a TypeError while \<^verbatim>\<open>uid\<close> is undefined.
\<close>

definition toJSON ::
  "('f, 'pk, 'cs) snarky \<Rightarrow> ('f, 'pk, 'cs, 'z) community_scheme \<Rightarrow> error + community_json" where
  "toJSON L this =
     (case uid this of
        None \<Rightarrow> Inl TypeError
      | Some u \<Rightarrow>
          Inr \<lparr>j_uid = Field_toString L u,
               j_fullName = Some (CircuitString_toString L (fullName this)),
               j_description = Some (CircuitString_toString L (description this)),
               j_accountId =
                 Some (PublicKey_toBase58 L
                   (or_object (Some (accountId this)) (PublicKey_empty L))),
               j_state = Some (CircuitString_toString L (state this)),
               j_createdUTC = Some (UTCDateTime_toString L (createdUTC this)),
               j_approvedUTC = Some (UTCDateTime_toString L (approvedUTC this)),
               j_updatedUTC = Some (UTCDateTime_toString L (updatedUTC this)),
               j_validators = Some (map (Field_toString L) (validators this)),
               j_auditors = Some (map (Field_toString L) (auditors this)),
               j_admins = Some (map (Field_toString L) (admins this)),
               j_plans = Some (map (Field_toString L) (plans this))\<rparr>)"

text \<open>
  \<^verbatim>\<open>hash\<close>: the chain of \<^verbatim>\<open>concat\<close> calls of lines 110 to 121, starting from the empty
  array, then \<^verbatim>\<open>Poseidon.hash\<close>. \<open>hash_fields\<close> is the array the chain builds.
\<close>

definition concat_js :: "'a list \<Rightarrow> 'a list \<Rightarrow> 'a list" where
  "concat_js xs ys = xs @ ys"

definition hash_fields ::
  "('f, 'pk, 'cs) snarky \<Rightarrow> 'f \<Rightarrow> ('f, 'pk, 'cs, 'z) community_scheme \<Rightarrow> 'f list" where
  "hash_fields L u this =
     concat_js (concat_js (concat_js (concat_js (concat_js (concat_js (concat_js (concat_js
       (concat_js (concat_js []
         (Field_toFields L u))
         (PublicKey_toFields L (accountId this)))
         (CircuitString_toFields L (fullName this)))
         (CircuitString_toFields L (description this)))
         (CircuitString_toFields L (state this)))
         [approvedUTC this, createdUTC this, updatedUTC this])
         (admins this))
         (validators this))
         (auditors this))
         (plans this)"

definition hash ::
  "('f, 'pk, 'cs) snarky \<Rightarrow> ('f, 'pk, 'cs, 'z) community_scheme \<Rightarrow> error + 'f" where
  "hash L this =
     (case uid this of
        None \<Rightarrow> Inl TypeError
      | Some u \<Rightarrow> Inr (Poseidon_hash L (hash_fields L u this)))"

section \<open>Specification vocabulary\<close>

text \<open>The exception a computation throws, as a list of at most one element.\<close>

definition thrown :: "error + 'a \<Rightarrow> error list" where
  "thrown r = (case r of Inl e \<Rightarrow> [e] | Inr x \<Rightarrow> [])"

text \<open>
  The exceptions the imported parsers throw on the pieces of a JSON object, piece by
  piece in the order in which \<open>fromJSON\<close> reads them; a text is parsed after it has been
  cut to \<open>maxLength - 1\<close> characters, an absent property is not parsed.
\<close>

definition parsed_text :: "('f, 'pk, 'cs) snarky \<Rightarrow> string option \<Rightarrow> error list" where
  "parsed_text L s =
     (case s of
        None \<Rightarrow> []
      | Some t \<Rightarrow> thrown (CircuitString_fromString L (take (CircuitString_maxLength L - 1) t)))"

definition parsed_key :: "('f, 'pk, 'cs) snarky \<Rightarrow> string option \<Rightarrow> error list" where
  "parsed_key L s = (case s of None \<Rightarrow> [] | Some t \<Rightarrow> thrown (PublicKey_fromBase58 L t))"

definition parsed_number :: "('f, 'pk, 'cs) snarky \<Rightarrow> string option \<Rightarrow> error list" where
  "parsed_number L s = (case s of None \<Rightarrow> [] | Some t \<Rightarrow> thrown (Field_str L t))"

definition parsed_list :: "('f, 'pk, 'cs) snarky \<Rightarrow> string list option \<Rightarrow> error list" where
  "parsed_list L s =
     (case s of None \<Rightarrow> [] | Some ts \<Rightarrow> concat (map (\<lambda>t. thrown (Field_str L t)) ts))"

definition parse_failures :: "('f, 'pk, 'cs) snarky \<Rightarrow> community_json \<Rightarrow> error list" where
  "parse_failures L json =
     thrown (Field_str L (j_uid json)) @
     parsed_key L (j_accountId json) @
     parsed_text L (j_fullName json) @
     parsed_text L (j_description json) @
     parsed_text L (j_state json) @
     parsed_number L (j_approvedUTC json) @
     parsed_number L (j_createdUTC json) @
     parsed_number L (j_updatedUTC json) @
     parsed_list L (j_admins json) @
     parsed_list L (j_validators json) @
     parsed_list L (j_auditors json) @
     parsed_list L (j_plans json)"

text \<open>
  A JSON object is malformed when its \<^verbatim>\<open>uid\<close>, its \<^verbatim>\<open>accountId\<close>, one of its three
  timestamps or an entry of one of its four identifier lists does not parse.
\<close>

definition malformed :: "('f, 'pk, 'cs) snarky \<Rightarrow> community_json \<Rightarrow> bool" where
  "malformed L json =
     (thrown (Field_str L (j_uid json)) \<noteq> [] \<or>
      parsed_key L (j_accountId json) \<noteq> [] \<or>
      parsed_number L (j_approvedUTC json) \<noteq> [] \<or>
      parsed_number L (j_createdUTC json) \<noteq> [] \<or>
      parsed_number L (j_updatedUTC json) \<noteq> [] \<or>
      parsed_list L (j_admins json) \<noteq> [] \<or>
      parsed_list L (j_validators json) \<noteq> [] \<or>
      parsed_list L (j_auditors json) \<noteq> [] \<or>
      parsed_list L (j_plans json) \<noteq> [])"

text \<open>A JSON object with a \<^verbatim>\<open>uid\<close> and nothing else.\<close>

definition only_uid :: "string \<Rightarrow> community_json" where
  "only_uid s =
     \<lparr>j_uid = s, j_fullName = None, j_description = None, j_accountId = None,
      j_state = None, j_createdUTC = None, j_approvedUTC = None, j_updatedUTC = None,
      j_validators = None, j_auditors = None, j_admins = None, j_plans = None\<rparr>"

text \<open>The three text fields print to at most \<open>maxLength\<close> characters.\<close>

definition text_bounded ::
  "('f, 'pk, 'cs) snarky \<Rightarrow> ('f, 'pk, 'cs, 'z) community_scheme \<Rightarrow> bool" where
  "text_bounded L this =
     (length (CircuitString_toString L (fullName this)) \<le> CircuitString_maxLength L \<and>
      length (CircuitString_toString L (description this)) \<le> CircuitString_maxLength L \<and>
      length (CircuitString_toString L (state this)) \<le> CircuitString_maxLength L)"

text \<open>Two instances that differ in the value of exactly one of the twelve fields.\<close>

definition single_field_change ::
  "('f, 'pk, 'cs, 'z) community_scheme \<Rightarrow> ('f, 'pk, 'cs, 'z) community_scheme \<Rightarrow> bool" where
  "single_field_change a b =
     ((\<exists>v. v \<noteq> uid a \<and> b = a\<lparr>uid := v\<rparr>) \<or>
      (\<exists>v. v \<noteq> accountId a \<and> b = a\<lparr>accountId := v\<rparr>) \<or>
      (\<exists>v. v \<noteq> fullName a \<and> b = a\<lparr>fullName := v\<rparr>) \<or>
      (\<exists>v. v \<noteq> description a \<and> b = a\<lparr>description := v\<rparr>) \<or>
      (\<exists>v. v \<noteq> state a \<and> b = a\<lparr>state := v\<rparr>) \<or>
      (\<exists>v. v \<noteq> approvedUTC a \<and> b = a\<lparr>approvedUTC := v\<rparr>) \<or>
      (\<exists>v. v \<noteq> createdUTC a \<and> b = a\<lparr>createdUTC := v\<rparr>) \<or>
      (\<exists>v. v \<noteq> updatedUTC a \<and> b = a\<lparr>updatedUTC := v\<rparr>) \<or>
      (\<exists>v. v \<noteq> admins a \<and> b = a\<lparr>admins := v\<rparr>) \<or>
      (\<exists>v. v \<noteq> validators a \<and> b = a\<lparr>validators := v\<rparr>) \<or>
      (\<exists>v. v \<noteq> auditors a \<and> b = a\<lparr>auditors := v\<rparr>) \<or>
      (\<exists>v. v \<noteq> plans a \<and> b = a\<lparr>plans := v\<rparr>))"

text \<open>
  What a text field holds after a coercion of the JSON text \<open>s\<close>: the value it had when
  the text is absent, the circuit string of the first \<open>maxLength - 1\<close> characters
  otherwise.
\<close>

definition stored_text :: "('f, 'pk, 'cs) snarky \<Rightarrow> string option \<Rightarrow> 'cs \<Rightarrow> 'cs \<Rightarrow> bool" where
  "stored_text L s before after =
     (case s of
        None \<Rightarrow> after = before
      | Some t \<Rightarrow>
          CircuitString_fromString L (take (CircuitString_maxLength L - 1) t) = Inr after)"

text \<open>
  Two JSON objects that differ in one property, other than the two timestamps
  \<^verbatim>\<open>createdUTC\<close> and \<^verbatim>\<open>updatedUTC\<close>, whose coercion gives a different value.
\<close>

definition json_change ::
  "('f, 'pk, 'cs) snarky \<Rightarrow> ('f, 'pk, 'cs, 'z) community_scheme \<Rightarrow>
     community_json \<Rightarrow> community_json \<Rightarrow> bool" where
  "json_change L this j j' =
     ((\<exists>v. j' = j\<lparr>j_uid := v\<rparr> \<and> Field_str L v \<noteq> Field_str L (j_uid j)) \<or>
      (\<exists>v. j' = j\<lparr>j_accountId := v\<rparr> \<and>
         asPublicKey L v (Some (accountId this)) \<noteq>
         asPublicKey L (j_accountId j) (Some (accountId this))) \<or>
      (\<exists>v. j' = j\<lparr>j_fullName := v\<rparr> \<and>
         asCircuitString L v (fullName this) \<noteq>
         asCircuitString L (j_fullName j) (fullName this)) \<or>
      (\<exists>v. j' = j\<lparr>j_description := v\<rparr> \<and>
         asCircuitString L v (description this) \<noteq>
         asCircuitString L (j_description j) (description this)) \<or>
      (\<exists>v. j' = j\<lparr>j_state := v\<rparr> \<and>
         asCircuitString L v (state this) \<noteq> asCircuitString L (j_state j) (state this)) \<or>
      (\<exists>v. j' = j\<lparr>j_approvedUTC := v\<rparr> \<and>
         asField L v (approvedUTC this) \<noteq> asField L (j_approvedUTC j) (approvedUTC this)) \<or>
      (\<exists>v. j' = j\<lparr>j_admins := v\<rparr> \<and>
         asArray L v (admins this) \<noteq> asArray L (j_admins j) (admins this)) \<or>
      (\<exists>v. j' = j\<lparr>j_validators := v\<rparr> \<and>
         asArray L v (validators this) \<noteq> asArray L (j_validators j) (validators this)) \<or>
      (\<exists>v. j' = j\<lparr>j_auditors := v\<rparr> \<and>
         asArray L v (auditors this) \<noteq> asArray L (j_auditors j) (auditors this)) \<or>
      (\<exists>v. j' = j\<lparr>j_plans := v\<rparr> \<and>
         asArray L v (plans this) \<noteq> asArray L (j_plans j) (plans this)))"

text \<open>
  Two JSON objects that differ in one text only, past its first \<open>maxLength - 1\<close>
  characters.
\<close>

definition same_cut :: "('f, 'pk, 'cs) snarky \<Rightarrow> community_json \<Rightarrow> community_json \<Rightarrow> bool" where
  "same_cut L j j' =
     ((\<exists>t t'. j_fullName j = Some t \<and> j' = j\<lparr>j_fullName := Some t'\<rparr> \<and>
         take (CircuitString_maxLength L - 1) t' = take (CircuitString_maxLength L - 1) t) \<or>
      (\<exists>t t'. j_description j = Some t \<and> j' = j\<lparr>j_description := Some t'\<rparr> \<and>
         take (CircuitString_maxLength L - 1) t' = take (CircuitString_maxLength L - 1) t) \<or>
      (\<exists>t t'. j_state j = Some t \<and> j' = j\<lparr>j_state := Some t'\<rparr> \<and>
         take (CircuitString_maxLength L - 1) t' = take (CircuitString_maxLength L - 1) t))"

section \<open>An executable instance of the primitives\<close>

text \<open>
  To run the model on concrete inputs the parameter needs a value. \<open>ideal\<close> is an
  idealised instance: a field element is a natural number written in decimal, a public
  key is a natural number written in base 58, a circuit string is the list of the
  character codes of a text of at most 128 characters, padded with zeros to 128 and
  printed without its non-printable characters, a timestamp prints in decimal, and the
  sponge is an injective encoding of lists. It stands for no particular release of the
  framework; the general theorems below hold for every value of the parameter.
\<close>

definition digit_index :: "string \<Rightarrow> char \<Rightarrow> nat" where
  "digit_index alphabet c = length (takeWhile (\<lambda>x. x \<noteq> c) alphabet)"

definition from_base :: "string \<Rightarrow> string \<Rightarrow> nat" where
  "from_base alphabet s = foldl (\<lambda>a c. a * length alphabet + digit_index alphabet c) 0 s"

function to_base :: "string \<Rightarrow> nat \<Rightarrow> string" where
  "to_base alphabet n =
     (if length alphabet < 2 then []
      else if n < length alphabet then [alphabet ! n]
      else to_base alphabet (n div length alphabet) @ [alphabet ! (n mod length alphabet)])"
  by pat_completeness auto
termination
  by (relation "measure snd") auto

definition well_formed :: "string \<Rightarrow> string \<Rightarrow> bool" where
  "well_formed alphabet s = (s \<noteq> [] \<and> list_all (\<lambda>c. c \<in> set alphabet) s)"

definition base10 :: string where
  "base10 = ''0123456789''"

definition base58 :: string where
  "base58 = ''123456789ABCDEFGHJKLMNPQRSTUVWXYZabcdefghijkmnopqrstuvwxyz''"

definition printable :: "char \<Rightarrow> bool" where
  "printable c = (32 \<le> (of_char c :: nat) \<and> (of_char c :: nat) \<le> 126)"

definition pad :: "string \<Rightarrow> nat list" where
  "pad s = map of_char s @ replicate (128 - length s) 0"

definition ideal :: "(nat, nat, nat list) snarky" where
  "ideal =
     \<lparr>Field_str = (\<lambda>s. if well_formed base10 s then Inr (from_base base10 s)
                        else Inl (Thrown ''SyntaxError'')),
      Field_0 = 0,
      Field_toString = to_base base10,
      Field_toFields = (\<lambda>f. [f]),
      PublicKey_empty = 0,
      PublicKey_fromBase58 = (\<lambda>s. if well_formed base58 s then Inr (from_base base58 s)
                                   else Inl (Thrown ''not base58'')),
      PublicKey_toBase58 = to_base base58,
      PublicKey_toFields = (\<lambda>k. [k div 2, k mod 2]),
      CircuitString_maxLength = 128,
      CircuitString_fromString = (\<lambda>s. if 128 < length s then Inl (Thrown ''exceeds max length'')
                                       else Inr (pad s)),
      CircuitString_toString = (\<lambda>c. filter printable (map char_of c)),
      CircuitString_toFields = (\<lambda>c. c),
      Poseidon_hash = list_encode,
      UTCDateTime_toString = to_base base10\<rparr>"

text \<open>The instance the field initialisers build over \<open>ideal\<close>.\<close>

definition fresh :: "(nat, nat, nat list) community" where
  "fresh =
     \<lparr>uid = None, accountId = 0, fullName = pad ''?'', description = pad [],
      state = pad ''INITIAL'', createdUTC = 0, updatedUTC = 0, approvedUTC = 0,
      admins = [], validators = [], auditors = [], plans = []\<rparr>"

section \<open>Concrete inputs\<close>

text \<open>\<^verbatim>\<open>{uid: "1", createdUTC: "5", updatedUTC: "7"}\<close>\<close>

definition j57 :: community_json where
  "j57 = (only_uid ''1'')\<lparr>j_createdUTC := Some ''5'', j_updatedUTC := Some ''7''\<rparr>"

text \<open>\<^verbatim>\<open>{uid: "1", accountId: "not-base58"}\<close>\<close>

definition j_bad_key :: community_json where
  "j_bad_key = (only_uid ''1'')\<lparr>j_accountId := Some ''not-base58''\<rparr>"

text \<open>\<^verbatim>\<open>{uid: "1", updatedUTC: "5"}\<close>\<close>

definition j_updated5 :: community_json where
  "j_updated5 = (only_uid ''1'')\<lparr>j_updatedUTC := Some ''5''\<rparr>"

text \<open>\<^verbatim>\<open>{uid: "1", fullName: "xx...x"}\<close>, a name of 200 characters.\<close>

definition j_long_name :: community_json where
  "j_long_name = (only_uid ''1'')\<lparr>j_fullName := Some (replicate 200 CHR ''x'')\<rparr>"

text \<open>\<^verbatim>\<open>{uid: "1", admins: ["2", "3"]}\<close> and the same with the list reversed.\<close>

definition j_admins23 :: community_json where
  "j_admins23 = (only_uid ''1'')\<lparr>j_admins := Some [''2'', ''3'']\<rparr>"

definition j_admins32 :: community_json where
  "j_admins32 = (only_uid ''1'')\<lparr>j_admins := Some [''3'', ''2'']\<rparr>"

text \<open>\<^verbatim>\<open>{uid: "1", fullName: "xx...xy"}\<close>, 199 times \<open>x\<close> and one \<open>y\<close>.\<close>

definition j_long_name_y :: community_json where
  "j_long_name_y = (only_uid ''1'')\<lparr>j_fullName := Some (replicate 199 CHR ''x'' @ ''y'')\<rparr>"

text \<open>\<^verbatim>\<open>{uid: "1", createdUTC: "6", updatedUTC: "7"}\<close>\<close>

definition j67 :: community_json where
  "j67 = (only_uid ''1'')\<lparr>j_createdUTC := Some ''6'', j_updatedUTC := Some ''7''\<rparr>"

section \<open>Properties\<close>

subsection \<open>The helpers\<close>

lemma or_string_empty: "or_string t [] = t"
  by (simp add: or_string_def)

lemma or_object_simps [simp]: "or_object (Some x) b = x" "or_object None b = b"
  by (simp_all add: or_object_def)

lemma substring_prefix: "substring s 0 (int n - 1) = take (n - 1) s"
proof -
  have "nat (max 0 (min (int n - 1) (int (length s)))) = min (n - 1) (length s)"
    by (cases n) auto
  then show ?thesis
    by (simp add: substring_def Let_def min_def max_def split: if_splits)
qed

lemma asCircuitString_Some:
  "asCircuitString L (Some t) d =
     CircuitString_fromString L (take (CircuitString_maxLength L - 1) t)"
  by (simp add: asCircuitString_def or_string_empty substring_prefix)

subsection \<open>Which exception \<open>fromJSON\<close> throws\<close>

lemma thrown_take1: "take (Suc 0) (thrown r) = thrown r"
  by (simp add: thrown_def split: sum.splits)

lemma and_then_take1:
  assumes "thrown m = take 1 xs"
    and "\<And>x. m = Inr x \<Longrightarrow> thrown (f x) = take 1 ys"
  shows "thrown (and_then m f) = take 1 (xs @ ys)"
proof (cases m)
  case (Inl e)
  with assms(1) show ?thesis
    by (cases xs) (simp_all add: and_then_def thrown_def)
next
  case (Inr x)
  with assms show ?thesis
    by (cases xs) (simp_all add: and_then_def thrown_def)
qed

lemma and_then_last: "thrown (and_then m (\<lambda>v. Inr (g v))) = thrown m"
  by (simp add: and_then_def thrown_def split: sum.splits)

lemma thrown_map_Field:
  "thrown (map_Field L ts) = take 1 (concat (map (\<lambda>t. thrown (Field_str L t)) ts))"
proof (induction ts)
  case Nil
  show ?case by (simp add: thrown_def)
next
  case (Cons t ts)
  have "thrown (map_Field L (t # ts)) =
          take 1 (thrown (Field_str L t) @ concat (map (\<lambda>t. thrown (Field_str L t)) ts))"
    unfolding map_Field.simps
    by (rule and_then_take1) (simp_all add: thrown_take1 and_then_last Cons.IH)
  then show ?case by simp
qed

lemma thrown_asPublicKey: "thrown (asPublicKey L s d) = take 1 (parsed_key L s)"
  by (simp add: asPublicKey_def parsed_key_def thrown_def split: option.splits sum.splits)

lemma thrown_asCircuitString: "thrown (asCircuitString L s d) = take 1 (parsed_text L s)"
  by (cases s) (simp_all add: asCircuitString_Some parsed_text_def thrown_take1,
      simp add: asCircuitString_def thrown_def)

lemma thrown_asField: "thrown (asField L s d) = take 1 (parsed_number L s)"
  by (simp add: asField_def parsed_number_def thrown_def split: option.splits sum.splits)

lemma thrown_asArray: "thrown (asArray L s d) = take 1 (parsed_list L s)"
  by (cases s) (simp_all add: asArray_def parsed_list_def thrown_map_Field, simp add: thrown_def)

lemma thrown_fromJSON:
  "thrown (fromJSON L this (Some json)) = take 1 (parse_failures L json)"
  unfolding fromJSON_def parse_failures_def Let_def option.case
  by (intro and_then_take1)
     (simp_all add: thrown_take1 thrown_asPublicKey thrown_asCircuitString
        thrown_asField thrown_asArray and_then_last)

lemma fromJSON_fails:
  assumes "parse_failures L json \<noteq> []"
  shows "fromJSON L this (Some json) = Inl (hd (parse_failures L json))"
  using assms thrown_fromJSON [of L this json]
  by (cases "fromJSON L this (Some json)"; cases "parse_failures L json")
     (simp_all add: thrown_def)

lemma fromJSON_succeeds:
  assumes "parse_failures L json = []"
  shows "\<exists>c. fromJSON L this (Some json) = Inr c"
  using assms thrown_fromJSON [of L this json]
  by (cases "fromJSON L this (Some json)") (simp_all add: thrown_def)

lemma malformed_failures: "malformed L json \<Longrightarrow> parse_failures L json \<noteq> []"
  by (auto simp: malformed_def parse_failures_def)

subsection \<open>What \<open>fromJSON\<close> stores\<close>

lemma fromJSON_Inr_fields:
  assumes "fromJSON L this (Some json) = Inr this'"
  shows "Field_str L (j_uid json) = Inr (the (uid this')) \<and> uid this' \<noteq> None"
    and "asPublicKey L (j_accountId json) (Some (accountId this)) = Inr (accountId this')"
    and "asCircuitString L (j_fullName json) (fullName this) = Inr (fullName this')"
    and "asCircuitString L (j_description json) (description this) = Inr (description this')"
    and "asCircuitString L (j_state json) (state this) = Inr (state this')"
    and "asField L (j_approvedUTC json) (approvedUTC this) = Inr (approvedUTC this')"
    and "\<exists>v. asField L (j_createdUTC json) (createdUTC this) = Inr v \<and>
             asField L (j_updatedUTC json) v = Inr (createdUTC this')"
    and "updatedUTC this' = updatedUTC this"
    and "asArray L (j_admins json) (admins this) = Inr (admins this')"
    and "asArray L (j_validators json) (validators this) = Inr (validators this')"
    and "asArray L (j_auditors json) (auditors this) = Inr (auditors this')"
    and "asArray L (j_plans json) (plans this) = Inr (plans this')"
    and "more this' = more this"
  using assms unfolding fromJSON_def Let_def and_then_def
  by (auto split: sum.splits)

subsection \<open>The factory\<close>

lemma constructor_undefined:
  "constructor L None = Inl (case initialisers L of Inl e \<Rightarrow> e | Inr c \<Rightarrow> TypeError)"
  by (simp add: constructor_def and_then_def fromJSON_def split: sum.splits)

text \<open>
  Claim C1. For every argument \<open>params\<close> the factory \<open>Community\<close> throws and returns no
  instance: \<^verbatim>\<open>new _Community_()\<close> runs the constructor with \<^verbatim>\<open>json\<close> undefined, the
  constructor calls \<^verbatim>\<open>this.fromJSON(undefined)\<close>, and reading \<^verbatim>\<open>json.uid\<close> throws. The
  exception is the constructor's own, so the factory's \<^verbatim>\<open>.fromJSON(params)\<close> is never
  reached and the outcome does not depend on \<open>params\<close>; once the field initialisers have
  run, it is the TypeError.
\<close>

theorem Community_always_throws:
  "Community L params = Inl (case initialisers L of Inl e \<Rightarrow> e | Inr c \<Rightarrow> TypeError)
   \<and> Community L params = constructor L None
   \<and> (\<forall>c. Community L params \<noteq> Inr c)"
  by (simp add: Community_def and_then_def constructor_undefined)

subsection \<open>Running the instance\<close>

lemma ideal_simps:
  "Field_str ideal = (\<lambda>s. if well_formed base10 s then Inr (from_base base10 s)
                        else Inl (Thrown ''SyntaxError''))"
  "Field_0 ideal = 0"
  "Field_toString ideal = to_base base10"
  "Field_toFields ideal = (\<lambda>f. [f])"
  "PublicKey_empty ideal = 0"
  "PublicKey_fromBase58 ideal = (\<lambda>s. if well_formed base58 s then Inr (from_base base58 s)
                                   else Inl (Thrown ''not base58''))"
  "PublicKey_toBase58 ideal = to_base base58"
  "PublicKey_toFields ideal = (\<lambda>k. [k div 2, k mod 2])"
  "CircuitString_maxLength ideal = 128"
  "CircuitString_fromString ideal = (\<lambda>s. if 128 < length s then Inl (Thrown ''exceeds max length'')
                                       else Inr (pad s))"
  "CircuitString_toString ideal = (\<lambda>c. filter printable (map char_of c))"
  "CircuitString_toFields ideal = (\<lambda>c. c)"
  "Poseidon_hash ideal = list_encode"
  "UTCDateTime_toString ideal = to_base base10"
  by (simp_all add: ideal_def)

lemma Field_str_ideal:
  "Field_str ideal ''1'' = Inr 1" "Field_str ideal ''2'' = Inr 2" "Field_str ideal ''3'' = Inr 3"
  "Field_str ideal ''5'' = Inr 5" "Field_str ideal ''7'' = Inr 7"
  by (simp_all add: ideal_simps well_formed_def base10_def from_base_def digit_index_def)

lemma Field_toString_ideal:
  "Field_toString ideal 0 = ''0''" "Field_toString ideal 1 = ''1''"
  "Field_toString ideal 2 = ''2''" "Field_toString ideal 3 = ''3''"
  "Field_toString ideal 5 = ''5''" "Field_toString ideal 7 = ''7''"
  by (simp_all add: ideal_simps base10_def)

lemma length_printed_pad: "length (filter printable (map char_of (pad t))) \<le> length t"
proof -
  have "filter printable (map char_of (replicate n (0::nat))) = []" for n
    by (simp add: printable_def)
  then have "filter printable (map char_of (pad t)) = filter printable t"
    by (simp add: pad_def comp_def)
  then show ?thesis
    by simp
qed

lemma initialisers_ideal: "initialisers ideal = Inr fresh"
  by (simp add: initialisers_def and_then_def ideal_simps fresh_def)

lemma initialisers_fields:
  assumes "initialisers L = Inr c0"
  shows "uid c0 = None" "accountId c0 = PublicKey_empty L"
    "CircuitString_fromString L ''?'' = Inr (fullName c0)"
    "CircuitString_fromString L [] = Inr (description c0)"
    "CircuitString_fromString L ''INITIAL'' = Inr (state c0)"
    "createdUTC c0 = Field_0 L" "updatedUTC c0 = Field_0 L" "approvedUTC c0 = Field_0 L"
    "admins c0 = []" "validators c0 = []" "auditors c0 = []" "plans c0 = []"
  using assms unfolding initialisers_def and_then_def
  by (auto split: sum.splits)

lemma fromJSON_only_uid:
  assumes "Field_str L s = Inr u"
  shows "fromJSON L this (Some (only_uid s)) = Inr (this\<lparr>uid := Some u\<rparr>)"
  using assms
  by (simp add: fromJSON_def and_then_def only_uid_def asPublicKey_def asCircuitString_def
      asField_def asArray_def)


subsection \<open>The timestamps\<close>

text \<open>
  Claim C3. For every input JSON on which \<open>fromJSON\<close> returns, \<^verbatim>\<open>this.updatedUTC\<close> is
  what it was before the call, which is \<open>Field(0)\<close> on a freshly initialised
  instance; when \<^verbatim>\<open>json.updatedUTC\<close> is present its parsed value is what
  \<^verbatim>\<open>this.createdUTC\<close> holds afterwards, whatever \<^verbatim>\<open>json.createdUTC\<close> was, and when it is
  absent \<^verbatim>\<open>this.createdUTC\<close> is the coercion of \<^verbatim>\<open>json.createdUTC\<close>; the part of the
  object outside the twelve fields is unchanged.
\<close>

theorem fromJSON_never_stores_updatedUTC:
  assumes "fromJSON L this (Some json) = Inr this'"
  shows "updatedUTC this' = updatedUTC this
       \<and> (\<forall>s. j_updatedUTC json = Some s \<longrightarrow> Field_str L s = Inr (createdUTC this'))
       \<and> (j_updatedUTC json = None \<longrightarrow>
            asField L (j_createdUTC json) (createdUTC this) = Inr (createdUTC this'))
       \<and> more this' = more this
       \<and> (\<forall>c0. initialisers L = Inr c0 \<longrightarrow> updatedUTC c0 = Field_0 L)"
proof -
  from fromJSON_Inr_fields(7) [OF assms] obtain v where
    v: "asField L (j_createdUTC json) (createdUTC this) = Inr v"
       "asField L (j_updatedUTC json) v = Inr (createdUTC this')"
    by blast
  have "\<forall>s. j_updatedUTC json = Some s \<longrightarrow> Field_str L s = Inr (createdUTC this')"
    using v(2) by (auto simp: asField_def)
  moreover have "j_updatedUTC json = None \<longrightarrow>
      asField L (j_createdUTC json) (createdUTC this) = Inr (createdUTC this')"
    using v by (auto simp: asField_def)
  ultimately show ?thesis
    using fromJSON_Inr_fields(8,13) [OF assms] initialisers_fields(7) by blast
qed

lemma fromJSON_j57:
  "fromJSON ideal fresh (Some j57) = Inr (fresh\<lparr>uid := Some 1, createdUTC := 7\<rparr>)"
  by (simp add: fromJSON_def and_then_def j57_def only_uid_def asPublicKey_def
      asCircuitString_def asField_def asArray_def Field_str_ideal)

theorem fromJSON_never_stores_updatedUTC_witness:
  "fromJSON ideal fresh (Some j57) = Inr (fresh\<lparr>uid := Some 1, createdUTC := 7\<rparr>)
   \<and> j_createdUTC j57 = Some ''5'' \<and> j_updatedUTC j57 = Some ''7''
   \<and> updatedUTC (fresh\<lparr>uid := Some 1, createdUTC := 7\<rparr>) = Field_0 ideal
   \<and> Field_str ideal ''7'' = Inr (createdUTC (fresh\<lparr>uid := Some 1, createdUTC := 7\<rparr>))"
  using fromJSON_never_stores_updatedUTC [OF fromJSON_j57] fromJSON_j57
  by (simp add: j57_def only_uid_def fresh_def ideal_simps)


subsection \<open>The defaults\<close>

text \<open>
  Claim C4. On a freshly initialised instance and a JSON object that holds only a
  \<^verbatim>\<open>uid\<close> that parses, \<open>fromJSON\<close> returns the instance with that uid and every other
  field at its declared default: the empty public key, the circuit strings of \<open>?\<close>, of
  the empty text and of \<open>INITIAL\<close>, \<open>Field(0)\<close> for the three timestamps and four
  empty lists. \<open>toJSON\<close> of it returns, and its \<^verbatim>\<open>accountId\<close> is the base58 text of the
  empty key.
\<close>

theorem fromJSON_only_uid_defaults:
  assumes "initialisers L = Inr c0" and "Field_str L s = Inr u"
  shows "\<exists>c t. fromJSON L c0 (Some (only_uid s)) = Inr c
           \<and> uid c = Some u
           \<and> accountId c = PublicKey_empty L
           \<and> CircuitString_fromString L ''?'' = Inr (fullName c)
           \<and> CircuitString_fromString L [] = Inr (description c)
           \<and> CircuitString_fromString L ''INITIAL'' = Inr (state c)
           \<and> approvedUTC c = Field_0 L \<and> createdUTC c = Field_0 L \<and> updatedUTC c = Field_0 L
           \<and> admins c = [] \<and> validators c = [] \<and> auditors c = [] \<and> plans c = []
           \<and> toJSON L c = Inr t
           \<and> j_accountId t = Some (PublicKey_toBase58 L (PublicKey_empty L))"
proof -
  let ?c = "c0\<lparr>uid := Some u\<rparr>"
  have "fromJSON L c0 (Some (only_uid s)) = Inr ?c"
    by (rule fromJSON_only_uid [OF assms(2)])
  moreover have "\<exists>t. toJSON L ?c = Inr t
      \<and> j_accountId t = Some (PublicKey_toBase58 L (PublicKey_empty L))"
    by (simp add: toJSON_def initialisers_fields(2) [OF assms(1)])
  ultimately show ?thesis
    using initialisers_fields [OF assms(1)] by auto
qed

theorem fromJSON_only_uid_defaults_witness:
  "fromJSON ideal fresh (Some (only_uid ''1'')) = Inr (fresh\<lparr>uid := Some 1\<rparr>)
   \<and> (\<exists>t. toJSON ideal (fresh\<lparr>uid := Some 1\<rparr>) = Inr t \<and> j_accountId t = Some ''1'')"
  using fromJSON_only_uid_defaults [OF initialisers_ideal Field_str_ideal(1)]
  by (auto simp: fromJSON_only_uid [OF Field_str_ideal(1)] ideal_simps base58_def)

subsection \<open>Malformed input\<close>

lemma constructor_fails:
  assumes "parse_failures L json \<noteq> []"
  shows "constructor L (Some json) \<noteq> Inr c"
  by (simp add: constructor_def and_then_def fromJSON_fails [OF assms] split: sum.splits)

text \<open>
  Claim C5. When the \<^verbatim>\<open>uid\<close>, the \<^verbatim>\<open>accountId\<close>, a timestamp or an entry of an
  identifier list of the JSON object does not parse, \<open>fromJSON\<close> throws: its outcome is
  the first exception the imported parsers throw on the pieces of the object, in the
  order in which \<open>fromJSON\<close> reads them, as the parser threw it. No instance is
  returned, by \<open>fromJSON\<close> or by the constructor, and so no default stands in for the
  piece that failed.
\<close>

theorem fromJSON_malformed_throws:
  assumes "malformed L json"
  shows "fromJSON L this (Some json) = Inl (hd (parse_failures L json))
       \<and> hd (parse_failures L json) \<in> set (parse_failures L json)
       \<and> (\<forall>c. fromJSON L this (Some json) \<noteq> Inr c)
       \<and> (\<forall>c. constructor L (Some json) \<noteq> Inr c)"
proof -
  have ne: "parse_failures L json \<noteq> []"
    by (rule malformed_failures [OF assms])
  then have "fromJSON L this (Some json) = Inl (hd (parse_failures L json))"
    by (rule fromJSON_fails)
  with ne show ?thesis
    by (simp add: constructor_fails)
qed

lemma malformed_j_bad_key: "malformed ideal j_bad_key"
  by (simp add: malformed_def j_bad_key_def only_uid_def parsed_key_def thrown_def
      ideal_simps well_formed_def base58_def)

lemma parse_failures_j_bad_key: "parse_failures ideal j_bad_key = [Thrown ''not base58'']"
  by (simp add: parse_failures_def j_bad_key_def only_uid_def parsed_key_def parsed_text_def
      parsed_number_def parsed_list_def thrown_def Field_str_ideal ideal_simps(6)
      well_formed_def base58_def)

theorem fromJSON_malformed_throws_witness:
  "malformed ideal j_bad_key
   \<and> fromJSON ideal fresh (Some j_bad_key) = Inl (Thrown ''not base58'')"
  using fromJSON_malformed_throws [OF malformed_j_bad_key, of fresh] malformed_j_bad_key
  by (simp add: parse_failures_j_bad_key)

subsection \<open>Text fields\<close>

text \<open>
  Claim C10. For every string \<open>s\<close>, \<open>asCircuitString\<close> returns what
  \<^verbatim>\<open>CircuitString.fromString\<close> makes of \<^verbatim>\<open>s.substring(0, CircuitString.maxLength - 1)\<close>,
  the first \<open>maxLength - 1\<close> characters of \<open>s\<close>: at most \<open>maxLength - 1\<close> characters
  are kept, and a string of exactly \<open>maxLength\<close> characters loses its last one.
\<close>

theorem asCircuitString_keeps_one_less:
  "asCircuitString L (Some s) d =
     CircuitString_fromString L (substring s 0 (int (CircuitString_maxLength L) - 1))
   \<and> substring s 0 (int (CircuitString_maxLength L) - 1) = take (CircuitString_maxLength L - 1) s
   \<and> length (take (CircuitString_maxLength L - 1) s) \<le> CircuitString_maxLength L - 1
   \<and> (length s = CircuitString_maxLength L \<and> 0 < length s \<longrightarrow>
        take (CircuitString_maxLength L - 1) s = butlast s
        \<and> take (CircuitString_maxLength L - 1) s \<noteq> s)"
proof -
  have 1: "asCircuitString L (Some s) d =
      CircuitString_fromString L (substring s 0 (int (CircuitString_maxLength L) - 1))"
    by (simp add: asCircuitString_def or_string_empty)
  have 2: "substring s 0 (int (CircuitString_maxLength L) - 1) =
      take (CircuitString_maxLength L - 1) s"
    by (rule substring_prefix)
  have 3: "length (take (CircuitString_maxLength L - 1) s) \<le> CircuitString_maxLength L - 1"
    by simp
  have 4: "length s = CircuitString_maxLength L \<and> 0 < length s \<longrightarrow>
        take (CircuitString_maxLength L - 1) s = butlast s
        \<and> take (CircuitString_maxLength L - 1) s \<noteq> s"
  proof (intro impI conjI)
    assume a: "length s = CircuitString_maxLength L \<and> 0 < length s"
    then show "take (CircuitString_maxLength L - 1) s = butlast s"
      by (simp add: butlast_conv_take)
    from a have "length (take (CircuitString_maxLength L - 1) s) < length s"
      by (cases s) auto
    then show "take (CircuitString_maxLength L - 1) s \<noteq> s"
      by auto
  qed
  from 1 2 3 4 show ?thesis
    by blast
qed

theorem asCircuitString_keeps_one_less_witness:
  "length (replicate 128 CHR ''x'') = CircuitString_maxLength ideal
   \<and> asCircuitString ideal (Some (replicate 128 CHR ''x'')) (pad []) =
       Inr (pad (replicate 127 CHR ''x''))
   \<and> replicate 127 CHR ''x'' \<noteq> replicate 128 CHR ''x''"
proof -
  note t = asCircuitString_keeps_one_less [of ideal "replicate 128 CHR ''x''" "pad []"]
  have "length (replicate 127 CHR ''x'') \<noteq> length (replicate 128 CHR ''x'')"
    by simp
  then have "replicate 127 CHR ''x'' \<noteq> replicate 128 CHR ''x''"
    by metis
  moreover have "asCircuitString ideal (Some (replicate 128 CHR ''x'')) (pad []) =
      Inr (pad (replicate 127 CHR ''x''))"
    unfolding t [THEN conjunct1] t [THEN conjunct2, THEN conjunct1]
    by (simp add: ideal_simps)
  ultimately show ?thesis
    by (simp add: ideal_simps)
qed

lemma parsed_text_accepted:
  assumes "\<forall>t. length t \<le> CircuitString_maxLength L \<longrightarrow> (\<exists>c. CircuitString_fromString L t = Inr c)"
  shows "parsed_text L s = []"
proof (cases s)
  case None
  then show ?thesis by (simp add: parsed_text_def)
next
  case (Some t)
  have "length (take (CircuitString_maxLength L - 1) t) \<le> CircuitString_maxLength L"
    by simp
  from assms [rule_format, OF this] show ?thesis
    by (auto simp: parsed_text_def thrown_def Some)
qed

lemma asCircuitString_bounded:
  assumes "\<forall>t c. CircuitString_fromString L t = Inr c \<longrightarrow>
             length (CircuitString_toString L c) \<le> length t"
    and "asCircuitString L s d = Inr c"
    and "length (CircuitString_toString L d) \<le> CircuitString_maxLength L"
  shows "length (CircuitString_toString L c) \<le> CircuitString_maxLength L"
proof (cases s)
  case None
  with assms(2,3) show ?thesis by (simp add: asCircuitString_def)
next
  case (Some t)
  with assms(2) have "CircuitString_fromString L (take (CircuitString_maxLength L - 1) t) = Inr c"
    by (simp add: asCircuitString_Some)
  from assms(1) [rule_format, OF this]
  have "length (CircuitString_toString L c) \<le> length (take (CircuitString_maxLength L - 1) t)" .
  moreover have "length (take (CircuitString_maxLength L - 1) t) \<le> CircuitString_maxLength L"
    by simp
  ultimately show ?thesis
    by (rule order_trans)
qed

lemma fromJSON_text_bounded:
  assumes "\<forall>t c. CircuitString_fromString L t = Inr c \<longrightarrow>
             length (CircuitString_toString L c) \<le> length t"
    and "text_bounded L this"
    and "fromJSON L this (Some json) = Inr this'"
  shows "text_bounded L this'"
  using assms(2)
    asCircuitString_bounded [OF assms(1) fromJSON_Inr_fields(3) [OF assms(3)]]
    asCircuitString_bounded [OF assms(1) fromJSON_Inr_fields(4) [OF assms(3)]]
    asCircuitString_bounded [OF assms(1) fromJSON_Inr_fields(5) [OF assms(3)]]
  by (simp add: text_bounded_def)

lemma initialisers_text_bounded:
  assumes "\<forall>t c. CircuitString_fromString L t = Inr c \<longrightarrow> length t \<le> CircuitString_maxLength L"
    and "\<forall>t c. CircuitString_fromString L t = Inr c \<longrightarrow>
             length (CircuitString_toString L c) \<le> length t"
    and "initialisers L = Inr c0"
  shows "text_bounded L c0"
  unfolding text_bounded_def
  using assms(1) [rule_format, OF initialisers_fields(3) [OF assms(3)]]
    assms(2) [rule_format, OF initialisers_fields(3) [OF assms(3)]]
    assms(1) [rule_format, OF initialisers_fields(4) [OF assms(3)]]
    assms(2) [rule_format, OF initialisers_fields(4) [OF assms(3)]]
    assms(1) [rule_format, OF initialisers_fields(5) [OF assms(3)]]
    assms(2) [rule_format, OF initialisers_fields(5) [OF assms(3)]]
  by simp

lemma well_formed_succeeds:
  assumes "\<forall>t. length t \<le> CircuitString_maxLength L \<longrightarrow> (\<exists>c. CircuitString_fromString L t = Inr c)"
    and "\<not> malformed L json"
  shows "\<exists>c. fromJSON L this (Some json) = Inr c"
proof -
  have "parse_failures L json = []"
    using assms(2) by (simp add: parse_failures_def malformed_def parsed_text_accepted [OF assms(1)])
  then show ?thesis
    by (rule fromJSON_succeeds)
qed

lemma asCircuitString_stored:
  "asCircuitString L s d = Inr c \<longleftrightarrow> stored_text L s d c"
proof (cases s)
  case None
  then show ?thesis by (auto simp: stored_text_def asCircuitString_def)
next
  case (Some t)
  then show ?thesis by (simp add: stored_text_def asCircuitString_Some)
qed

lemma fromJSON_stored_text:
  assumes "fromJSON L this (Some json) = Inr this'"
  shows "stored_text L (j_fullName json) (fullName this) (fullName this')
       \<and> stored_text L (j_description json) (description this) (description this')
       \<and> stored_text L (j_state json) (state this) (state this')"
  using fromJSON_Inr_fields(3,4,5) [OF assms]
  by (simp add: asCircuitString_stored)

lemma printed_pad: "filter printable (map char_of (pad t)) = filter printable t"
proof -
  have "filter printable (map char_of (replicate n (0::nat))) = []" for n
    by (simp add: printable_def)
  then show ?thesis
    by (simp add: pad_def comp_def)
qed

text \<open>
  Claim C8. The framework's contract for circuit strings is that
  \<^verbatim>\<open>CircuitString.fromString\<close> accepts a text exactly when it has at most \<open>maxLength\<close>
  characters and that the circuit string prints to no more characters than the text
  had. Under it, \<open>asCircuitString\<close> returns for every text, however long: what it
  returns is the circuit string of the first \<open>maxLength - 1\<close> characters of the text,
  the whole text when it is shorter than \<open>maxLength\<close>, and it prints to at most
  \<open>maxLength\<close> characters. When \<open>fromJSON\<close> returns, each of the three text
  fields holds that circuit string of its JSON text, or its previous value when the JSON
  has no such text; the three fields stay within \<open>maxLength\<close>, where the field
  initialisers put them; and a JSON object whose other pieces parse is never refused for
  the length of a text.
\<close>

theorem text_fields_never_exceed_maxLength:
  assumes accepts:
      "\<forall>t. length t \<le> CircuitString_maxLength L \<longrightarrow> (\<exists>c. CircuitString_fromString L t = Inr c)"
    and rejects:
      "\<forall>t c. CircuitString_fromString L t = Inr c \<longrightarrow> length t \<le> CircuitString_maxLength L"
    and prints:
      "\<forall>t c. CircuitString_fromString L t = Inr c \<longrightarrow>
         length (CircuitString_toString L c) \<le> length t"
  shows "(\<exists>c. asCircuitString L (Some s) d = Inr c
            \<and> CircuitString_fromString L (take (CircuitString_maxLength L - 1) s) = Inr c
            \<and> length (CircuitString_toString L c) \<le> CircuitString_maxLength L)
       \<and> length (take (CircuitString_maxLength L - 1) s) =
            min (length s) (CircuitString_maxLength L - 1)
       \<and> (length s < CircuitString_maxLength L \<longrightarrow> take (CircuitString_maxLength L - 1) s = s)
       \<and> (fromJSON L this (Some json) = Inr this' \<longrightarrow>
            stored_text L (j_fullName json) (fullName this) (fullName this')
            \<and> stored_text L (j_description json) (description this) (description this')
            \<and> stored_text L (j_state json) (state this) (state this'))
       \<and> (text_bounded L this \<and> fromJSON L this (Some json) = Inr this' \<longrightarrow> text_bounded L this')
       \<and> (initialisers L = Inr c0 \<longrightarrow> text_bounded L c0)
       \<and> (\<not> malformed L json \<longrightarrow> (\<exists>c. fromJSON L this (Some json) = Inr c))"
proof -
  have "length (take (CircuitString_maxLength L - 1) s) \<le> CircuitString_maxLength L"
    by simp
  from accepts [rule_format, OF this] obtain c where
    c: "CircuitString_fromString L (take (CircuitString_maxLength L - 1) s) = Inr c"
    by blast
  from prints [rule_format, OF c]
  have "length (CircuitString_toString L c) \<le> length (take (CircuitString_maxLength L - 1) s)" .
  moreover have "length (take (CircuitString_maxLength L - 1) s) \<le> CircuitString_maxLength L"
    by simp
  ultimately have "length (CircuitString_toString L c) \<le> CircuitString_maxLength L"
    by (rule order_trans)
  with c have 1: "\<exists>c. asCircuitString L (Some s) d = Inr c
      \<and> CircuitString_fromString L (take (CircuitString_maxLength L - 1) s) = Inr c
      \<and> length (CircuitString_toString L c) \<le> CircuitString_maxLength L"
    by (simp add: asCircuitString_Some)
  have 2: "length (take (CircuitString_maxLength L - 1) s) =
      min (length s) (CircuitString_maxLength L - 1)"
    by simp
  have 3: "length s < CircuitString_maxLength L \<longrightarrow> take (CircuitString_maxLength L - 1) s = s"
    by simp
  have 4: "fromJSON L this (Some json) = Inr this' \<longrightarrow>
      stored_text L (j_fullName json) (fullName this) (fullName this')
      \<and> stored_text L (j_description json) (description this) (description this')
      \<and> stored_text L (j_state json) (state this) (state this')"
    by (intro impI) (rule fromJSON_stored_text)
  have 5: "text_bounded L this \<and> fromJSON L this (Some json) = Inr this' \<longrightarrow> text_bounded L this'"
    using fromJSON_text_bounded [OF prints] by blast
  have 6: "initialisers L = Inr c0 \<longrightarrow> text_bounded L c0"
    using initialisers_text_bounded [OF rejects prints] by blast
  have 7: "\<not> malformed L json \<longrightarrow> (\<exists>c. fromJSON L this (Some json) = Inr c)"
    using well_formed_succeeds [OF accepts] by blast
  from 1 2 3 4 5 6 7 show ?thesis
    by (intro conjI)
qed

lemma not_malformed_j_long_name: "\<not> malformed ideal j_long_name"
  by (simp add: malformed_def j_long_name_def only_uid_def parsed_key_def parsed_number_def
      parsed_list_def thrown_def Field_str_ideal)

theorem text_fields_never_exceed_maxLength_witness:
  "\<not> malformed ideal j_long_name
   \<and> j_fullName j_long_name = Some (replicate 200 CHR ''x'')
   \<and> CircuitString_maxLength ideal = 128
   \<and> (\<exists>c. fromJSON ideal fresh (Some j_long_name) = Inr c
          \<and> fullName c = pad (replicate 127 CHR ''x'')
          \<and> CircuitString_toString ideal (fullName c) = replicate 127 CHR ''x''
          \<and> description c = description fresh \<and> state c = state fresh
          \<and> text_bounded ideal c)"
proof -
  have a: "\<forall>t. length t \<le> CircuitString_maxLength ideal \<longrightarrow>
      (\<exists>c. CircuitString_fromString ideal t = Inr c)"
    by (simp add: ideal_simps)
  have r: "\<forall>t c. CircuitString_fromString ideal t = Inr c \<longrightarrow>
      length t \<le> CircuitString_maxLength ideal"
    by (simp add: ideal_simps split: if_splits)
  have p: "\<forall>t c. CircuitString_fromString ideal t = Inr c \<longrightarrow>
      length (CircuitString_toString ideal c) \<le> length t"
  proof (intro allI impI)
    fix t c
    assume "CircuitString_fromString ideal t = Inr c"
    then have c: "c = pad t"
      by (simp add: ideal_simps split: if_splits)
    show "length (CircuitString_toString ideal c) \<le> length t"
      unfolding c ideal_simps(11) by (rule length_printed_pad)
  qed
  note t = text_fields_never_exceed_maxLength [of ideal, OF a r p,
      where this = fresh and json = j_long_name and ?c0.0 = fresh]
  from t not_malformed_j_long_name
  obtain c where c: "fromJSON ideal fresh (Some j_long_name) = Inr c"
    by blast
  from t initialisers_ideal have "text_bounded ideal fresh"
    by blast
  with t [where this' = c] c have b: "text_bounded ideal c"
    by blast
  from t [where this' = c] c
  have st: "stored_text ideal (j_fullName j_long_name) (fullName fresh) (fullName c)"
    "stored_text ideal (j_description j_long_name) (description fresh) (description c)"
    "stored_text ideal (j_state j_long_name) (state fresh) (state c)"
    by blast+
  from st(1) have f: "fullName c = pad (replicate 127 CHR ''x'')"
    by (simp add: stored_text_def j_long_name_def ideal_simps)
  from st(2,3) have ds: "description c = description fresh" "state c = state fresh"
    by (simp_all add: stored_text_def j_long_name_def only_uid_def)
  have pr: "CircuitString_toString ideal (pad (replicate 127 CHR ''x'')) = replicate 127 CHR ''x''"
    unfolding ideal_simps(11) printed_pad by (simp add: printable_def)
  from c b f ds pr not_malformed_j_long_name show ?thesis
    by (simp add: j_long_name_def ideal_simps)
qed

subsection \<open>The hash\<close>

lemma hash_fields_flat:
  "hash_fields L u this =
     Field_toFields L u @ PublicKey_toFields L (accountId this) @
     CircuitString_toFields L (fullName this) @ CircuitString_toFields L (description this) @
     CircuitString_toFields L (state this) @
     [approvedUTC this, createdUTC this, updatedUTC this] @
     admins this @ validators this @ auditors this @ plans this"
  by (simp add: hash_fields_def concat_js_def)

text \<open>
  Claim C6. On an instance whose \<^verbatim>\<open>uid\<close> is set, \<open>hash\<close> returns the sponge hash of
  one sequence: the field elements of \<^verbatim>\<open>uid\<close>, \<^verbatim>\<open>accountId\<close>, \<^verbatim>\<open>fullName\<close>,
  \<^verbatim>\<open>description\<close> and \<^verbatim>\<open>state\<close>, then \<^verbatim>\<open>approvedUTC\<close>, \<^verbatim>\<open>createdUTC\<close>, \<^verbatim>\<open>updatedUTC\<close>,
  then the lists \<^verbatim>\<open>admins\<close>, \<^verbatim>\<open>validators\<close>, \<^verbatim>\<open>auditors\<close> and \<^verbatim>\<open>plans\<close>, each in its own
  order.
\<close>

theorem hash_is_Poseidon_of_ordered_fields:
  assumes "uid this = Some u"
  shows "hash L this =
     Inr (Poseidon_hash L
       (Field_toFields L u @ PublicKey_toFields L (accountId this) @
        CircuitString_toFields L (fullName this) @ CircuitString_toFields L (description this) @
        CircuitString_toFields L (state this) @
        [approvedUTC this, createdUTC this, updatedUTC this] @
        admins this @ validators this @ auditors this @ plans this))"
  using assms by (simp add: hash_def hash_fields_flat)

theorem hash_is_Poseidon_of_ordered_fields_witness:
  "uid (fresh\<lparr>uid := Some 1, admins := [2, 3]\<rparr>) = Some 1
   \<and> hash ideal (fresh\<lparr>uid := Some 1, admins := [2, 3]\<rparr>) =
       Inr (list_encode ([1] @ [0, 0] @ pad ''?'' @ pad [] @ pad ''INITIAL'' @
         [0, 0, 0] @ [2, 3] @ [] @ [] @ []))"
  using hash_is_Poseidon_of_ordered_fields [of "fresh\<lparr>uid := Some 1, admins := [2, 3]\<rparr>" 1 ideal]
  by (simp add: fresh_def ideal_simps)

subsection \<open>Round trips\<close>

text \<open>
  Whatever the JSON object says, \<open>toJSON\<close> after \<open>fromJSON\<close> prints the
  \<^verbatim>\<open>updatedUTC\<close> the instance had before.
\<close>

lemma updatedUTC_lost:
  assumes "fromJSON L this (Some json) = Inr c" and "toJSON L c = Inr t"
  shows "j_updatedUTC t = Some (UTCDateTime_toString L (updatedUTC this))"
  using assms(2) fromJSON_Inr_fields(8) [OF assms(1)]
  by (auto simp: toJSON_def split: option.splits)

lemma fromJSON_j_updated5:
  "fromJSON ideal fresh (Some j_updated5) = Inr (fresh\<lparr>uid := Some 1, createdUTC := 5\<rparr>)"
  by (simp add: fromJSON_def and_then_def j_updated5_def only_uid_def asPublicKey_def
      asCircuitString_def asField_def asArray_def Field_str_ideal)

text \<open>
  Claim C2, which the code does not meet. On \<^verbatim>\<open>{uid: "1", updatedUTC: "5"}\<close> and a
  freshly initialised instance, \<open>fromJSON\<close> returns an instance whose \<^verbatim>\<open>updatedUTC\<close> is
  still \<open>Field(0)\<close> and whose \<^verbatim>\<open>createdUTC\<close> is 5: line 84 assigns the parsed
  \<^verbatim>\<open>json.updatedUTC\<close> to \<^verbatim>\<open>this.createdUTC\<close>. \<open>toJSON\<close> of it prints the timestamp 0 for
  \<^verbatim>\<open>updatedUTC\<close>, not the 5 that went in, and prints 5 for \<^verbatim>\<open>createdUTC\<close>, which the
  input did not have.
\<close>

theorem updatedUTC_does_not_round_trip:
  "\<exists>c t. fromJSON ideal fresh (Some j_updated5) = Inr c \<and> toJSON ideal c = Inr t
     \<and> j_createdUTC j_updated5 = None \<and> j_updatedUTC j_updated5 = Some ''5''
     \<and> updatedUTC c = 0 \<and> createdUTC c = 5
     \<and> j_createdUTC t = Some ''5'' \<and> j_updatedUTC t = Some ''0''"
proof -
  let ?c = "fresh\<lparr>uid := Some 1, createdUTC := 5\<rparr>"
  have "\<exists>t. toJSON ideal ?c = Inr t \<and> j_createdUTC t = Some ''5'' \<and> j_updatedUTC t = Some ''0''"
    by (simp add: toJSON_def fresh_def ideal_simps(14) base10_def)
  moreover have "j_createdUTC j_updated5 = None \<and> j_updatedUTC j_updated5 = Some ''5''"
    by (simp add: j_updated5_def only_uid_def)
  moreover have "updatedUTC ?c = 0 \<and> createdUTC ?c = 5"
    by (simp add: fresh_def)
  ultimately show ?thesis
    using fromJSON_j_updated5 by blast
qed

subsection \<open>What the hash depends on\<close>

lemma hash_truncate:
  assumes "community.truncate a = community.truncate b"
  shows "hash L a = hash L b"
proof -
  from assms have "uid a = uid b" "hash_fields L u a = hash_fields L u b" for u
    by (simp_all add: community.truncate_def hash_fields_flat)
  then show ?thesis
    by (simp add: hash_def split: option.splits)
qed

lemma fromJSON_truncate:
  assumes "community.truncate a = community.truncate b"
    and "fromJSON L a json = Inr c" and "fromJSON L b json = Inr c'"
  shows "community.truncate c = community.truncate c'"
proof (cases json)
  case None
  with assms(2) show ?thesis by (simp add: fromJSON_def)
next
  case (Some j)
  note fa = fromJSON_Inr_fields [OF assms(2) [unfolded Some]]
  note fb = fromJSON_Inr_fields [OF assms(3) [unfolded Some]]
  from assms(1) have ab: "accountId a = accountId b" "fullName a = fullName b"
    "description a = description b" "state a = state b" "createdUTC a = createdUTC b"
    "updatedUTC a = updatedUTC b" "approvedUTC a = approvedUTC b" "admins a = admins b"
    "validators a = validators b" "auditors a = auditors b" "plans a = plans b"
    by (simp_all add: community.truncate_def)
  from fa(1) fb(1) have "uid c = uid c'"
    by (cases "uid c"; cases "uid c'") auto
  moreover from fa(2) fb(2) ab have "accountId c = accountId c'" by simp
  moreover from fa(3) fb(3) ab have "fullName c = fullName c'" by simp
  moreover from fa(4) fb(4) ab have "description c = description c'" by simp
  moreover from fa(5) fb(5) ab have "state c = state c'" by simp
  moreover from fa(6) fb(6) ab have "approvedUTC c = approvedUTC c'" by simp
  moreover from fa(7) fb(7) ab have "createdUTC c = createdUTC c'" by auto
  moreover from fa(8) fb(8) ab have "updatedUTC c = updatedUTC c'" by simp
  moreover from fa(9) fb(9) ab have "admins c = admins c'" by simp
  moreover from fa(10) fb(10) ab have "validators c = validators c'" by simp
  moreover from fa(11) fb(11) ab have "auditors c = auditors c'" by simp
  moreover from fa(12) fb(12) ab have "plans c = plans c'" by simp
  ultimately show ?thesis
    by (simp add: community.truncate_def)
qed

lemma single_field_change_fields:
  assumes F: "inj (Field_toFields L)" and K: "inj (PublicKey_toFields L)"
    and S: "inj (CircuitString_toFields L)"
    and ch: "single_field_change a b" and u: "uid a = Some u" and v: "uid b = Some v"
  shows "hash_fields L u a \<noteq> hash_fields L v b"
  using ch unfolding single_field_change_def
proof (elim disjE exE conjE)
  fix x assume "x \<noteq> uid a" "b = a\<lparr>uid := x\<rparr>"
  with u v show ?thesis by (auto simp: hash_fields_flat inj_eq [OF F])
next
  fix x assume "x \<noteq> accountId a" "b = a\<lparr>accountId := x\<rparr>"
  with u v show ?thesis by (auto simp: hash_fields_flat inj_eq [OF K])
next
  fix x assume "x \<noteq> fullName a" "b = a\<lparr>fullName := x\<rparr>"
  with u v show ?thesis by (auto simp: hash_fields_flat inj_eq [OF S])
next
  fix x assume "x \<noteq> description a" "b = a\<lparr>description := x\<rparr>"
  with u v show ?thesis by (auto simp: hash_fields_flat inj_eq [OF S])
next
  fix x assume "x \<noteq> state a" "b = a\<lparr>state := x\<rparr>"
  with u v show ?thesis by (auto simp: hash_fields_flat inj_eq [OF S])
next
  fix x assume "x \<noteq> approvedUTC a" "b = a\<lparr>approvedUTC := x\<rparr>"
  with u v show ?thesis by (auto simp: hash_fields_flat)
next
  fix x assume "x \<noteq> createdUTC a" "b = a\<lparr>createdUTC := x\<rparr>"
  with u v show ?thesis by (auto simp: hash_fields_flat)
next
  fix x assume "x \<noteq> updatedUTC a" "b = a\<lparr>updatedUTC := x\<rparr>"
  with u v show ?thesis by (auto simp: hash_fields_flat)
next
  fix x assume "x \<noteq> admins a" "b = a\<lparr>admins := x\<rparr>"
  with u v show ?thesis by (auto simp: hash_fields_flat)
next
  fix x assume "x \<noteq> validators a" "b = a\<lparr>validators := x\<rparr>"
  with u v show ?thesis by (auto simp: hash_fields_flat)
next
  fix x assume "x \<noteq> auditors a" "b = a\<lparr>auditors := x\<rparr>"
  with u v show ?thesis by (auto simp: hash_fields_flat)
next
  fix x assume "x \<noteq> plans a" "b = a\<lparr>plans := x\<rparr>"
  with u v show ?thesis by (auto simp: hash_fields_flat)
qed

lemma hash_differs:
  assumes "uid a = Some u" and "uid b = Some v"
    and "hash_fields L u a \<noteq> hash_fields L v b"
    and "inj_on (Poseidon_hash L) {hash_fields L u a, hash_fields L v b}"
  shows "hash L a \<noteq> hash L b"
  using assms by (auto simp: hash_def inj_on_def)

lemma single_field_change_uid:
  "v \<noteq> uid a \<Longrightarrow> b = a\<lparr>uid := v\<rparr> \<Longrightarrow> single_field_change a b"
  unfolding single_field_change_def
  by (rule disjI1) (rule exI [of _ v], simp)

lemma single_field_change_accountId:
  "v \<noteq> accountId a \<Longrightarrow> b = a\<lparr>accountId := v\<rparr> \<Longrightarrow> single_field_change a b"
  unfolding single_field_change_def
  by (rule disjI2, rule disjI1) (rule exI [of _ v], simp)

lemma single_field_change_fullName:
  "v \<noteq> fullName a \<Longrightarrow> b = a\<lparr>fullName := v\<rparr> \<Longrightarrow> single_field_change a b"
  unfolding single_field_change_def
  by (rule disjI2, rule disjI2, rule disjI1) (rule exI [of _ v], simp)

lemma single_field_change_description:
  "v \<noteq> description a \<Longrightarrow> b = a\<lparr>description := v\<rparr> \<Longrightarrow> single_field_change a b"
  unfolding single_field_change_def
  by (rule disjI2, rule disjI2, rule disjI2, rule disjI1) (rule exI [of _ v], simp)

lemma single_field_change_state:
  "v \<noteq> state a \<Longrightarrow> b = a\<lparr>state := v\<rparr> \<Longrightarrow> single_field_change a b"
  unfolding single_field_change_def
  by (rule disjI2, rule disjI2, rule disjI2, rule disjI2, rule disjI1) (rule exI [of _ v], simp)

lemma single_field_change_approvedUTC:
  "v \<noteq> approvedUTC a \<Longrightarrow> b = a\<lparr>approvedUTC := v\<rparr> \<Longrightarrow> single_field_change a b"
  unfolding single_field_change_def
  by (rule disjI2, rule disjI2, rule disjI2, rule disjI2, rule disjI2, rule disjI1) (rule exI [of _ v], simp)

lemma single_field_change_admins:
  "v \<noteq> admins a \<Longrightarrow> b = a\<lparr>admins := v\<rparr> \<Longrightarrow> single_field_change a b"
  unfolding single_field_change_def
  by (rule disjI2, rule disjI2, rule disjI2, rule disjI2, rule disjI2, rule disjI2, rule disjI2, rule disjI2, rule disjI1) (rule exI [of _ v], simp)

lemma single_field_change_validators:
  "v \<noteq> validators a \<Longrightarrow> b = a\<lparr>validators := v\<rparr> \<Longrightarrow> single_field_change a b"
  unfolding single_field_change_def
  by (rule disjI2, rule disjI2, rule disjI2, rule disjI2, rule disjI2, rule disjI2, rule disjI2, rule disjI2, rule disjI2, rule disjI1) (rule exI [of _ v], simp)

lemma single_field_change_auditors:
  "v \<noteq> auditors a \<Longrightarrow> b = a\<lparr>auditors := v\<rparr> \<Longrightarrow> single_field_change a b"
  unfolding single_field_change_def
  by (rule disjI2, rule disjI2, rule disjI2, rule disjI2, rule disjI2, rule disjI2, rule disjI2, rule disjI2, rule disjI2, rule disjI2, rule disjI1) (rule exI [of _ v], simp)

lemma single_field_change_plans:
  "v \<noteq> plans a \<Longrightarrow> b = a\<lparr>plans := v\<rparr> \<Longrightarrow> single_field_change a b"
  unfolding single_field_change_def
  by (rule disjI2, rule disjI2, rule disjI2, rule disjI2, rule disjI2, rule disjI2, rule disjI2, rule disjI2, rule disjI2, rule disjI2, rule disjI2) (rule exI [of _ v], simp)

lemma fromJSON_agree:
  assumes fa: "fromJSON L this (Some j) = Inr d" and fb: "fromJSON L this (Some j') = Inr d'"
  shows "j_uid j = j_uid j' \<Longrightarrow> uid d = uid d'"
    and "j_accountId j = j_accountId j' \<Longrightarrow> accountId d = accountId d'"
    and "j_fullName j = j_fullName j' \<Longrightarrow> fullName d = fullName d'"
    and "j_description j = j_description j' \<Longrightarrow> description d = description d'"
    and "j_state j = j_state j' \<Longrightarrow> state d = state d'"
    and "j_approvedUTC j = j_approvedUTC j' \<Longrightarrow> approvedUTC d = approvedUTC d'"
    and "j_createdUTC j = j_createdUTC j' \<Longrightarrow> j_updatedUTC j = j_updatedUTC j' \<Longrightarrow>
           createdUTC d = createdUTC d'"
    and "updatedUTC d = updatedUTC d'"
    and "j_admins j = j_admins j' \<Longrightarrow> admins d = admins d'"
    and "j_validators j = j_validators j' \<Longrightarrow> validators d = validators d'"
    and "j_auditors j = j_auditors j' \<Longrightarrow> auditors d = auditors d'"
    and "j_plans j = j_plans j' \<Longrightarrow> plans d = plans d'"
    and "more d = more d'"
proof -
  note a = fromJSON_Inr_fields [OF fa]
  note b = fromJSON_Inr_fields [OF fb]
  show "j_uid j = j_uid j' \<Longrightarrow> uid d = uid d'"
    using a(1) b(1) by (cases "uid d"; cases "uid d'") auto
  show "j_accountId j = j_accountId j' \<Longrightarrow> accountId d = accountId d'"
    using a(2) b(2) by simp
  show "j_fullName j = j_fullName j' \<Longrightarrow> fullName d = fullName d'"
    using a(3) b(3) by simp
  show "j_description j = j_description j' \<Longrightarrow> description d = description d'"
    using a(4) b(4) by simp
  show "j_state j = j_state j' \<Longrightarrow> state d = state d'"
    using a(5) b(5) by simp
  show "j_approvedUTC j = j_approvedUTC j' \<Longrightarrow> approvedUTC d = approvedUTC d'"
    using a(6) b(6) by simp
  show "j_createdUTC j = j_createdUTC j' \<Longrightarrow> j_updatedUTC j = j_updatedUTC j' \<Longrightarrow>
      createdUTC d = createdUTC d'"
    using a(7) b(7) by auto
  show "updatedUTC d = updatedUTC d'"
    using a(8) b(8) by simp
  show "j_admins j = j_admins j' \<Longrightarrow> admins d = admins d'"
    using a(9) b(9) by simp
  show "j_validators j = j_validators j' \<Longrightarrow> validators d = validators d'"
    using a(10) b(10) by simp
  show "j_auditors j = j_auditors j' \<Longrightarrow> auditors d = auditors d'"
    using a(11) b(11) by simp
  show "j_plans j = j_plans j' \<Longrightarrow> plans d = plans d'"
    using a(12) b(12) by simp
  show "more d = more d'"
    using a(13) b(13) by simp
qed

lemma json_change_single_field:
  assumes ch: "json_change L this j j'"
    and fa: "fromJSON L this (Some j) = Inr d" and fb: "fromJSON L this (Some j') = Inr d'"
  shows "single_field_change d d'"
  using ch unfolding json_change_def
proof (elim disjE exE conjE)
  fix v assume e: "j' = j\<lparr>j_uid := v\<rparr>" and n: "Field_str L v \<noteq> Field_str L (j_uid j)"
  note ag = fromJSON_agree [OF fa fb [unfolded e]]
  note sa = fromJSON_Inr_fields [OF fa] and sb = fromJSON_Inr_fields [OF fb [unfolded e]]
  have "d' = d\<lparr>uid := uid d'\<rparr>"
    by (rule community.equality) (simp_all add: ag)
  moreover from n sa(1) sb(1) have "uid d' \<noteq> uid d"
    by auto
  ultimately show ?thesis
    by (rule single_field_change_uid [rotated])
next
  fix v assume e: "j' = j\<lparr>j_accountId := v\<rparr>"
    and n: "asPublicKey L v (Some (accountId this)) \<noteq>
      asPublicKey L (j_accountId j) (Some (accountId this))"
  note ag = fromJSON_agree [OF fa fb [unfolded e]]
  note sa = fromJSON_Inr_fields [OF fa] and sb = fromJSON_Inr_fields [OF fb [unfolded e]]
  have "d' = d\<lparr>accountId := accountId d'\<rparr>"
    by (rule community.equality) (simp_all add: ag)
  moreover from n sa(2) sb(2) have "accountId d' \<noteq> accountId d"
    by auto
  ultimately show ?thesis
    by (rule single_field_change_accountId [rotated])
next
  fix v assume e: "j' = j\<lparr>j_fullName := v\<rparr>"
    and n: "asCircuitString L v (fullName this) \<noteq>
      asCircuitString L (j_fullName j) (fullName this)"
  note ag = fromJSON_agree [OF fa fb [unfolded e]]
  note sa = fromJSON_Inr_fields [OF fa] and sb = fromJSON_Inr_fields [OF fb [unfolded e]]
  have "d' = d\<lparr>fullName := fullName d'\<rparr>"
    by (rule community.equality) (simp_all add: ag)
  moreover from n sa(3) sb(3) have "fullName d' \<noteq> fullName d"
    by auto
  ultimately show ?thesis
    by (rule single_field_change_fullName [rotated])
next
  fix v assume e: "j' = j\<lparr>j_description := v\<rparr>"
    and n: "asCircuitString L v (description this) \<noteq>
      asCircuitString L (j_description j) (description this)"
  note ag = fromJSON_agree [OF fa fb [unfolded e]]
  note sa = fromJSON_Inr_fields [OF fa] and sb = fromJSON_Inr_fields [OF fb [unfolded e]]
  have "d' = d\<lparr>description := description d'\<rparr>"
    by (rule community.equality) (simp_all add: ag)
  moreover from n sa(4) sb(4) have "description d' \<noteq> description d"
    by auto
  ultimately show ?thesis
    by (rule single_field_change_description [rotated])
next
  fix v assume e: "j' = j\<lparr>j_state := v\<rparr>"
    and n: "asCircuitString L v (state this) \<noteq> asCircuitString L (j_state j) (state this)"
  note ag = fromJSON_agree [OF fa fb [unfolded e]]
  note sa = fromJSON_Inr_fields [OF fa] and sb = fromJSON_Inr_fields [OF fb [unfolded e]]
  have "d' = d\<lparr>state := state d'\<rparr>"
    by (rule community.equality) (simp_all add: ag)
  moreover from n sa(5) sb(5) have "state d' \<noteq> state d"
    by auto
  ultimately show ?thesis
    by (rule single_field_change_state [rotated])
next
  fix v assume e: "j' = j\<lparr>j_approvedUTC := v\<rparr>"
    and n: "asField L v (approvedUTC this) \<noteq> asField L (j_approvedUTC j) (approvedUTC this)"
  note ag = fromJSON_agree [OF fa fb [unfolded e]]
  note sa = fromJSON_Inr_fields [OF fa] and sb = fromJSON_Inr_fields [OF fb [unfolded e]]
  have "d' = d\<lparr>approvedUTC := approvedUTC d'\<rparr>"
    by (rule community.equality) (simp_all add: ag)
  moreover from n sa(6) sb(6) have "approvedUTC d' \<noteq> approvedUTC d"
    by auto
  ultimately show ?thesis
    by (rule single_field_change_approvedUTC [rotated])
next
  fix v assume e: "j' = j\<lparr>j_admins := v\<rparr>"
    and n: "asArray L v (admins this) \<noteq> asArray L (j_admins j) (admins this)"
  note ag = fromJSON_agree [OF fa fb [unfolded e]]
  note sa = fromJSON_Inr_fields [OF fa] and sb = fromJSON_Inr_fields [OF fb [unfolded e]]
  have "d' = d\<lparr>admins := admins d'\<rparr>"
    by (rule community.equality) (simp_all add: ag)
  moreover from n sa(9) sb(9) have "admins d' \<noteq> admins d"
    by auto
  ultimately show ?thesis
    by (rule single_field_change_admins [rotated])
next
  fix v assume e: "j' = j\<lparr>j_validators := v\<rparr>"
    and n: "asArray L v (validators this) \<noteq> asArray L (j_validators j) (validators this)"
  note ag = fromJSON_agree [OF fa fb [unfolded e]]
  note sa = fromJSON_Inr_fields [OF fa] and sb = fromJSON_Inr_fields [OF fb [unfolded e]]
  have "d' = d\<lparr>validators := validators d'\<rparr>"
    by (rule community.equality) (simp_all add: ag)
  moreover from n sa(10) sb(10) have "validators d' \<noteq> validators d"
    by auto
  ultimately show ?thesis
    by (rule single_field_change_validators [rotated])
next
  fix v assume e: "j' = j\<lparr>j_auditors := v\<rparr>"
    and n: "asArray L v (auditors this) \<noteq> asArray L (j_auditors j) (auditors this)"
  note ag = fromJSON_agree [OF fa fb [unfolded e]]
  note sa = fromJSON_Inr_fields [OF fa] and sb = fromJSON_Inr_fields [OF fb [unfolded e]]
  have "d' = d\<lparr>auditors := auditors d'\<rparr>"
    by (rule community.equality) (simp_all add: ag)
  moreover from n sa(11) sb(11) have "auditors d' \<noteq> auditors d"
    by auto
  ultimately show ?thesis
    by (rule single_field_change_auditors [rotated])
next
  fix v assume e: "j' = j\<lparr>j_plans := v\<rparr>"
    and n: "asArray L v (plans this) \<noteq> asArray L (j_plans j) (plans this)"
  note ag = fromJSON_agree [OF fa fb [unfolded e]]
  note sa = fromJSON_Inr_fields [OF fa] and sb = fromJSON_Inr_fields [OF fb [unfolded e]]
  have "d' = d\<lparr>plans := plans d'\<rparr>"
    by (rule community.equality) (simp_all add: ag)
  moreover from n sa(12) sb(12) have "plans d' \<noteq> plans d"
    by auto
  ultimately show ?thesis
    by (rule single_field_change_plans [rotated])
qed

lemma Field_str_6: "Field_str ideal ''6'' = Inr 6"
  by (simp add: ideal_simps well_formed_def base10_def from_base_def digit_index_def)

lemma same_cut_same_result:
  assumes "same_cut L j j'"
  shows "fromJSON L this (Some j') = fromJSON L this (Some j)"
  using assms unfolding same_cut_def
  by (elim disjE exE conjE) (simp_all add: fromJSON_def asCircuitString_Some)

text \<open>
  Claim C7, amended. \<open>fromJSON\<close> and \<open>hash\<close> are functions: the hash of an
  instance is determined by the values of its twelve fields, and two instances with the
  same field values, given the same JSON, come out of \<open>fromJSON\<close> with the same field
  values and the same hash. When the field elements of a \<^verbatim>\<open>Field\<close>, a key and a circuit
  string determine it, and two JSON objects differ in one property other than
  \<^verbatim>\<open>createdUTC\<close> and \<^verbatim>\<open>updatedUTC\<close> whose coercion gives a different value (a list in
  another order included), the two instances \<open>fromJSON\<close> returns for them feed
  different sequences to the sponge, and their hashes differ unless the sponge collides
  on these two sequences. Two JSON objects that differ only in a text, past its first
  \<open>maxLength - 1\<close> characters, give the same instance and so the same hash.
\<close>

theorem hash_follows_json_fields:
  assumes F: "inj (Field_toFields L)" and K: "inj (PublicKey_toFields L)"
    and S: "inj (CircuitString_toFields L)"
  shows "(community.truncate a = community.truncate b \<longrightarrow> hash L a = hash L b)
       \<and> (community.truncate a = community.truncate b
            \<and> fromJSON L a json = Inr c \<and> fromJSON L b json = Inr c' \<longrightarrow>
            community.truncate c = community.truncate c' \<and> hash L c = hash L c')
       \<and> (json_change L this j j'
            \<and> fromJSON L this (Some j) = Inr d \<and> fromJSON L this (Some j') = Inr d' \<longrightarrow>
            (\<exists>u u'. uid d = Some u \<and> uid d' = Some u'
               \<and> hash_fields L u d \<noteq> hash_fields L u' d'
               \<and> (inj_on (Poseidon_hash L) {hash_fields L u d, hash_fields L u' d'} \<longrightarrow>
                    hash L d \<noteq> hash L d')))
       \<and> (same_cut L j j' \<longrightarrow> fromJSON L this (Some j') = fromJSON L this (Some j))"
proof -
  have 1: "community.truncate a = community.truncate b \<longrightarrow> hash L a = hash L b"
    by (intro impI) (rule hash_truncate)
  have 2: "community.truncate a = community.truncate b
      \<and> fromJSON L a json = Inr c \<and> fromJSON L b json = Inr c' \<longrightarrow>
      community.truncate c = community.truncate c' \<and> hash L c = hash L c'"
  proof (intro impI conjI)
    assume h: "community.truncate a = community.truncate b
      \<and> fromJSON L a json = Inr c \<and> fromJSON L b json = Inr c'"
    then show t: "community.truncate c = community.truncate c'"
      by (intro fromJSON_truncate [of a b L json c c']) simp_all
    then show "hash L c = hash L c'"
      by (rule hash_truncate)
  qed
  have 3: "json_change L this j j'
      \<and> fromJSON L this (Some j) = Inr d \<and> fromJSON L this (Some j') = Inr d' \<longrightarrow>
      (\<exists>u u'. uid d = Some u \<and> uid d' = Some u'
         \<and> hash_fields L u d \<noteq> hash_fields L u' d'
         \<and> (inj_on (Poseidon_hash L) {hash_fields L u d, hash_fields L u' d'} \<longrightarrow>
              hash L d \<noteq> hash L d'))"
  proof (intro impI)
    assume h: "json_change L this j j'
      \<and> fromJSON L this (Some j) = Inr d \<and> fromJSON L this (Some j') = Inr d'"
    then have ch: "json_change L this j j'"
      and fa: "fromJSON L this (Some j) = Inr d" and fb: "fromJSON L this (Some j') = Inr d'"
      by simp_all
    from fromJSON_Inr_fields(1) [OF fa] obtain u where u: "uid d = Some u"
      by auto
    from fromJSON_Inr_fields(1) [OF fb] obtain u' where u': "uid d' = Some u'"
      by auto
    have sc: "single_field_change d d'"
      by (rule json_change_single_field [OF ch fa fb])
    have ne: "hash_fields L u d \<noteq> hash_fields L u' d'"
      by (rule single_field_change_fields [OF F K S sc u u'])
    have "inj_on (Poseidon_hash L) {hash_fields L u d, hash_fields L u' d'} \<longrightarrow>
        hash L d \<noteq> hash L d'"
      by (intro impI) (rule hash_differs [OF u u' ne])
    with u u' ne show "\<exists>u u'. uid d = Some u \<and> uid d' = Some u'
         \<and> hash_fields L u d \<noteq> hash_fields L u' d'
         \<and> (inj_on (Poseidon_hash L) {hash_fields L u d, hash_fields L u' d'} \<longrightarrow>
              hash L d \<noteq> hash L d')"
      by (intro exI [of _ u] exI [of _ u'] conjI)
  qed
  have 4: "same_cut L j j' \<longrightarrow> fromJSON L this (Some j') = fromJSON L this (Some j)"
    by (intro impI) (rule same_cut_same_result)
  from 1 2 3 4 show ?thesis
    by (intro conjI)
qed

lemma inj_ideal:
  "inj (Field_toFields ideal)" "inj (PublicKey_toFields ideal)"
  "inj (CircuitString_toFields ideal)"
proof -
  show "inj (Field_toFields ideal)"
    unfolding ideal_simps by (rule injI) (simp only: list.inject)
  show "inj (CircuitString_toFields ideal)"
    unfolding ideal_simps by (rule injI)
  show "inj (PublicKey_toFields ideal)"
  proof (rule injI)
    fix k k' :: nat
    assume "PublicKey_toFields ideal k = PublicKey_toFields ideal k'"
    then have e: "k div 2 = k' div 2" "k mod 2 = k' mod 2"
      unfolding ideal_simps by (simp_all only: list.inject simp_thms)
    have "k = k div 2 * 2 + k mod 2"
      by (rule div_mult_mod_eq [symmetric])
    also have "\<dots> = k' div 2 * 2 + k' mod 2"
      by (simp only: e)
    also have "\<dots> = k'"
      by (rule div_mult_mod_eq)
    finally show "k = k'" .
  qed
qed

lemma fromJSON_j_admins:
  "fromJSON ideal fresh (Some j_admins23) = Inr (fresh\<lparr>uid := Some 1, admins := [2, 3]\<rparr>)"
  "fromJSON ideal fresh (Some j_admins32) = Inr (fresh\<lparr>uid := Some 1, admins := [3, 2]\<rparr>)"
  by (simp_all add: fromJSON_def and_then_def j_admins23_def j_admins32_def only_uid_def
      asPublicKey_def asCircuitString_def asField_def asArray_def Field_str_ideal)

theorem hash_follows_json_fields_witness:
  "j_admins32 = j_admins23\<lparr>j_admins := Some [''3'', ''2'']\<rparr>
   \<and> fromJSON ideal fresh (Some j_admins23) = Inr (fresh\<lparr>uid := Some 1, admins := [2, 3]\<rparr>)
   \<and> fromJSON ideal fresh (Some j_admins32) = Inr (fresh\<lparr>uid := Some 1, admins := [3, 2]\<rparr>)
   \<and> hash ideal (fresh\<lparr>uid := Some 1, admins := [2, 3]\<rparr>) \<noteq>
       hash ideal (fresh\<lparr>uid := Some 1, admins := [3, 2]\<rparr>)"
proof -
  let ?d = "fresh\<lparr>uid := Some 1, admins := [2, 3]\<rparr>"
  let ?d' = "fresh\<lparr>uid := Some 1, admins := [3, 2]\<rparr>"
  have e: "j_admins32 = j_admins23\<lparr>j_admins := Some [''3'', ''2'']\<rparr>"
    by (simp add: j_admins23_def j_admins32_def)
  have "asArray ideal (Some [''3'', ''2'']) (admins fresh) \<noteq>
      asArray ideal (j_admins j_admins23) (admins fresh)"
    by (simp add: asArray_def and_then_def j_admins23_def Field_str_ideal)
  with e have ex: "\<exists>v. j_admins32 = j_admins23\<lparr>j_admins := v\<rparr> \<and>
      asArray ideal v (admins fresh) \<noteq> asArray ideal (j_admins j_admins23) (admins fresh)"
    by blast
  have ch: "json_change ideal fresh j_admins23 j_admins32"
    unfolding json_change_def
    by (rule disjI2, rule disjI2, rule disjI2, rule disjI2, rule disjI2, rule disjI2, rule disjI1)
      (rule ex)
  note t = hash_follows_json_fields [OF inj_ideal,
      where this = fresh and j = j_admins23 and j' = j_admins32 and d = ?d and d' = ?d',
      THEN conjunct2, THEN conjunct2, THEN conjunct1, rule_format]
  from t ch fromJSON_j_admins obtain u u' where
    r: "uid ?d = Some u" "uid ?d' = Some u'"
       "inj_on (Poseidon_hash ideal) {hash_fields ideal u ?d, hash_fields ideal u' ?d'} \<longrightarrow>
          hash ideal ?d \<noteq> hash ideal ?d'"
    by blast
  have "inj_on (Poseidon_hash ideal) {hash_fields ideal u ?d, hash_fields ideal u' ?d'}"
    unfolding ideal_simps by (rule inj_list_encode)
  with r(3) have "hash ideal ?d \<noteq> hash ideal ?d'"
    by blast
  with e fromJSON_j_admins show ?thesis
    by (intro conjI)
qed

lemma asCircuitString_None: "asCircuitString L None d = Inr d"
  by (simp add: asCircuitString_def)

lemma fromJSON_j_long_names:
  "fromJSON ideal fresh (Some j_long_name) =
     Inr (fresh\<lparr>uid := Some 1, fullName := pad (replicate 127 CHR ''x'')\<rparr>)"
  "fromJSON ideal fresh (Some j_long_name_y) =
     Inr (fresh\<lparr>uid := Some 1, fullName := pad (replicate 127 CHR ''x'')\<rparr>)"
  by (simp_all add: fromJSON_def and_then_def j_long_name_def j_long_name_y_def only_uid_def
      asPublicKey_def asCircuitString_Some asCircuitString_None asField_def asArray_def
      Field_str_ideal ideal_simps(9,10))

lemma fromJSON_j67:
  "fromJSON ideal fresh (Some j67) = Inr (fresh\<lparr>uid := Some 1, createdUTC := 7\<rparr>)"
  by (simp add: fromJSON_def and_then_def j67_def only_uid_def asPublicKey_def
      asCircuitString_def asField_def asArray_def Field_str_ideal Field_str_6)

text \<open>
  Claim C7 does not hold as it is stated. The JSON objects with a name of 200 times
  \<open>x\<close> and with a name of 199 times \<open>x\<close> and one \<open>y\<close> differ in one property, and
  \<open>fromJSON\<close> returns the same instance for both, since it keeps 127 characters of a
  name: the hash is the same. So do \<^verbatim>\<open>{uid: "1", createdUTC: "5", updatedUTC: "7"}\<close> and
  the same with \<^verbatim>\<open>createdUTC: "6"\<close>, since line 84 overwrites \<^verbatim>\<open>createdUTC\<close> with the
  parsed \<^verbatim>\<open>updatedUTC\<close>.
\<close>

theorem json_change_same_hash_counterexample:
  "j_long_name_y = j_long_name\<lparr>j_fullName := Some (replicate 199 CHR ''x'' @ ''y'')\<rparr>
   \<and> j_fullName j_long_name = Some (replicate 200 CHR ''x'')
   \<and> replicate 199 CHR ''x'' @ ''y'' \<noteq> replicate 200 CHR ''x''
   \<and> fromJSON ideal fresh (Some j_long_name) =
       Inr (fresh\<lparr>uid := Some 1, fullName := pad (replicate 127 CHR ''x'')\<rparr>)
   \<and> fromJSON ideal fresh (Some j_long_name_y) =
       Inr (fresh\<lparr>uid := Some 1, fullName := pad (replicate 127 CHR ''x'')\<rparr>)
   \<and> and_then (fromJSON ideal fresh (Some j_long_name_y)) (hash ideal) =
       and_then (fromJSON ideal fresh (Some j_long_name)) (hash ideal)
   \<and> j67 = j57\<lparr>j_createdUTC := Some ''6''\<rparr>
   \<and> j_createdUTC j57 = Some ''5''
   \<and> fromJSON ideal fresh (Some j57) = Inr (fresh\<lparr>uid := Some 1, createdUTC := 7\<rparr>)
   \<and> fromJSON ideal fresh (Some j67) = Inr (fresh\<lparr>uid := Some 1, createdUTC := 7\<rparr>)
   \<and> and_then (fromJSON ideal fresh (Some j67)) (hash ideal) =
       and_then (fromJSON ideal fresh (Some j57)) (hash ideal)"
proof -
  have "(replicate 199 CHR ''x'' @ ''y'') ! 199 \<noteq> replicate 200 CHR ''x'' ! 199"
    by (simp add: nth_append)
  then have 1: "replicate 199 CHR ''x'' @ ''y'' \<noteq> replicate 200 CHR ''x''"
    by metis
  have 2: "j_long_name_y = j_long_name\<lparr>j_fullName := Some (replicate 199 CHR ''x'' @ ''y'')\<rparr>"
    "j_fullName j_long_name = Some (replicate 200 CHR ''x'')"
    by (simp_all add: j_long_name_def j_long_name_y_def)
  have 3: "and_then (fromJSON ideal fresh (Some j_long_name_y)) (hash ideal) =
      and_then (fromJSON ideal fresh (Some j_long_name)) (hash ideal)"
    by (simp only: fromJSON_j_long_names)
  have 4: "j67 = j57\<lparr>j_createdUTC := Some ''6''\<rparr>" "j_createdUTC j57 = Some ''5''"
    by (simp_all add: j57_def j67_def)
  have 5: "and_then (fromJSON ideal fresh (Some j67)) (hash ideal) =
      and_then (fromJSON ideal fresh (Some j57)) (hash ideal)"
    by (simp only: fromJSON_j57 fromJSON_j67)
  from 1 2 3 4 5 fromJSON_j_long_names fromJSON_j57 fromJSON_j67 show ?thesis
    by (intro conjI)
qed

text \<open>
  Claim C9. When \<^verbatim>\<open>Field\<close> parses \<open>1\<close>, \<open>2\<close> and \<open>3\<close> and prints the last two as
  it read them, \<open>fromJSON\<close> of \<^verbatim>\<open>{uid: "1", admins: ["2", "3"]}\<close> on a freshly
  initialised instance stores the two identifiers in that order and \<open>toJSON\<close> gives
  \<^verbatim>\<open>["2", "3"]\<close> back. With \<^verbatim>\<open>["3", "2"]\<close> the sequence fed to the sponge is a different
  one, and \<open>hash\<close> differs unless the sponge collides on the two sequences.
\<close>

theorem admins_round_trip_and_order:
  assumes c0: "initialisers L = Inr c0"
    and f1: "Field_str L ''1'' = Inr f1"
    and f2: "Field_str L ''2'' = Inr f2"
    and f3: "Field_str L ''3'' = Inr f3"
    and p2: "Field_toString L f2 = ''2''"
    and p3: "Field_toString L f3 = ''3''"
  shows "\<exists>c c' t.
           fromJSON L c0 (Some j_admins23) = Inr c \<and> admins c = [f2, f3]
         \<and> toJSON L c = Inr t \<and> j_admins t = Some [''2'', ''3'']
         \<and> fromJSON L c0 (Some j_admins32) = Inr c' \<and> admins c' = [f3, f2]
         \<and> hash_fields L f1 c \<noteq> hash_fields L f1 c'
         \<and> hash L c = Inr (Poseidon_hash L (hash_fields L f1 c))
         \<and> hash L c' = Inr (Poseidon_hash L (hash_fields L f1 c'))
         \<and> (inj_on (Poseidon_hash L) {hash_fields L f1 c, hash_fields L f1 c'} \<longrightarrow>
              hash L c \<noteq> hash L c')"
proof -
  let ?c = "c0\<lparr>uid := Some f1, admins := [f2, f3]\<rparr>"
  let ?c' = "c0\<lparr>uid := Some f1, admins := [f3, f2]\<rparr>"
  have a: "fromJSON L c0 (Some j_admins23) = Inr ?c"
    by (simp add: fromJSON_def and_then_def j_admins23_def only_uid_def asPublicKey_def
        asCircuitString_def asField_def asArray_def f1 f2 f3)
  have b: "fromJSON L c0 (Some j_admins32) = Inr ?c'"
    by (simp add: fromJSON_def and_then_def j_admins32_def only_uid_def asPublicKey_def
        asCircuitString_def asField_def asArray_def f1 f2 f3)
  have t: "\<exists>t. toJSON L ?c = Inr t \<and> j_admins t = Some [''2'', ''3'']"
    by (simp add: toJSON_def p2 p3)
  from p2 p3 have ne: "f2 \<noteq> f3"
    by auto
  then have d: "hash_fields L f1 ?c \<noteq> hash_fields L f1 ?c'"
    by (simp add: hash_fields_flat)
  have h: "hash L ?c = Inr (Poseidon_hash L (hash_fields L f1 ?c))"
    "hash L ?c' = Inr (Poseidon_hash L (hash_fields L f1 ?c'))"
    by (simp_all add: hash_def)
  have i: "inj_on (Poseidon_hash L) {hash_fields L f1 ?c, hash_fields L f1 ?c'} \<longrightarrow>
      hash L ?c \<noteq> hash L ?c'"
    using d unfolding h by (simp add: inj_on_def)
  from t obtain t where t: "toJSON L ?c = Inr t" "j_admins t = Some [''2'', ''3'']"
    by blast
  have ad: "admins ?c = [f2, f3]" "admins ?c' = [f3, f2]"
    by simp_all
  from a ad(1) t b ad(2) d h i show ?thesis
    by (intro exI [of _ ?c] exI [of _ ?c'] exI [of _ t] conjI)
qed

theorem admins_round_trip_and_order_witness:
  "\<exists>c c'. fromJSON ideal fresh (Some j_admins23) = Inr c
      \<and> fromJSON ideal fresh (Some j_admins32) = Inr c'
      \<and> (\<exists>t. toJSON ideal c = Inr t \<and> j_admins t = Some [''2'', ''3''])
      \<and> hash ideal c \<noteq> hash ideal c'"
proof -
  from admins_round_trip_and_order [OF initialisers_ideal Field_str_ideal(1,2,3)
      Field_toString_ideal(3,4)]
  obtain c c' t where
    r: "fromJSON ideal fresh (Some j_admins23) = Inr c"
       "toJSON ideal c = Inr t" "j_admins t = Some [''2'', ''3'']"
       "fromJSON ideal fresh (Some j_admins32) = Inr c'"
       "inj_on (Poseidon_hash ideal) {hash_fields ideal 1 c, hash_fields ideal 1 c'} \<longrightarrow>
          hash ideal c \<noteq> hash ideal c'"
    by blast
  have "inj_on (Poseidon_hash ideal) {hash_fields ideal 1 c, hash_fields ideal 1 c'}"
    unfolding ideal_simps by (rule inj_list_encode)
  with r show ?thesis
    by blast
qed

end
